theory Spec2Isabelle
  imports Main "HOL-Library.Word"
begin

unbundle bit_operations_syntax

section \<open>Constants of the arena layer\<close>

text \<open>
  The arena layer of mimalloc (\<^verbatim>\<open>src/arena.c\<close>). A \<^verbatim>\<open>size_t\<close> that is used as a bit
  pattern (a memory id, a bitmap field) is a \<open>64 word\<close>; sizes, counts and indices are
  natural numbers, with the wrap-around of \<^verbatim>\<open>size_t\<close> written out where an operation can
  exceed 64 bits. Addresses are natural numbers and \<open>NULL\<close> is address 0. A name of the
  source that starts with an underscore is written without it.
\<close>

type_synonym size_t = "64 word"
type_synonym mi_bitmap_field_t = "64 word"

definition NULL :: nat where
  "NULL = 0"

text \<open>
  Modelled from the spec: \<^verbatim>\<open>MI_SEGMENT_SIZE\<close> and \<^verbatim>\<open>MI_BITMAP_FIELD_BITS\<close> are defined in
  headers that are not part of the sources. The spec has blocks of 32MiB and fields of 64
  bits, and so have the comments of \<^verbatim>\<open>arena.c\<close>: a block of \<^verbatim>\<open>8*MI_SEGMENT_ALIGN\<close> is
  32MiB, and an object is at most \<^verbatim>\<open>64*32MiB\<close>.
\<close>

definition MI_SEGMENT_SIZE :: nat where
  "MI_SEGMENT_SIZE = 4 * 1024 * 1024"

definition MI_BITMAP_FIELD_BITS :: nat where
  "MI_BITMAP_FIELD_BITS = 64"

definition MI_SEGMENT_ALIGN :: nat where
  "MI_SEGMENT_ALIGN = MI_SEGMENT_SIZE"

definition MI_ARENA_BLOCK_SIZE :: nat where
  "MI_ARENA_BLOCK_SIZE = 8 * MI_SEGMENT_ALIGN"

definition MI_ARENA_MAX_OBJ_SIZE :: nat where
  "MI_ARENA_MAX_OBJ_SIZE = MI_BITMAP_FIELD_BITS * MI_ARENA_BLOCK_SIZE"

definition MI_ARENA_MIN_OBJ_SIZE :: nat where
  "MI_ARENA_MIN_OBJ_SIZE = MI_ARENA_BLOCK_SIZE div 2"

definition MI_MAX_ARENAS :: nat where
  "MI_MAX_ARENAS = 64"

definition MI_MEMID_OS :: size_t where
  "MI_MEMID_OS = 0"

section \<open>Memory ids\<close>

text \<open>
  \<^verbatim>\<open>mi_memid_create\<close>: the lower 8 bits are the arena index + 1, the upper bits the
  bitmap index. \<^verbatim>\<open>mi_assert_internal\<close> is a debugging assertion that is compiled out of a
  release build; the model follows the release build, where it does nothing.
\<close>

definition mi_memid_create :: "size_t \<Rightarrow> size_t \<Rightarrow> size_t" where
  "mi_memid_create arena_index bitmap_index =
     (push_bit 8 bitmap_index) OR ((arena_index + 1) AND 0xFF)"

definition mi_memid_indices :: "size_t \<Rightarrow> size_t \<times> size_t" where
  "mi_memid_indices memid = ((memid AND 0xFF) - 1, drop_bit 8 memid)"

text \<open>
  Modelled from the spec: \<^verbatim>\<open>_mi_divide_up\<close> is declared in \<^verbatim>\<open>mimalloc-internal.h\<close>, which is
  not part of the sources; the spec says "compute block count from size (rounding up)".
  The sum is a \<^verbatim>\<open>size_t\<close> and wraps at 64 bits.
\<close>

definition mi_divide_up :: "nat \<Rightarrow> nat \<Rightarrow> nat" where
  "mi_divide_up sz divider =
     (if divider = 0 then sz else ((sz + divider - 1) mod 2 ^ 64) div divider)"

text \<open>\<^verbatim>\<open>mi_block_count_of_size\<close> rounds a size up to arena blocks.\<close>

definition mi_block_count_of_size :: "nat \<Rightarrow> nat" where
  "mi_block_count_of_size sz = mi_divide_up sz MI_ARENA_BLOCK_SIZE"

section \<open>The bitmap primitive\<close>

text \<open>
  Modelled from the spec: \<^verbatim>\<open>bitmap.inc.c\<close> is included by \<^verbatim>\<open>arena.c\<close> but is not part of
  the sources. The spec gives its contract per field: try-claim finds a run of free bits in
  one field and marks it, or fails; claim marks a run and reports whether it was all zero
  before; unclaim clears a run and reports whether it was all one before. A bitmap
  position combines the field index and the bit offset in the field into one integer;
  \<^verbatim>\<open>arena.c\<close> multiplies \<^verbatim>\<open>mi_bitmap_index_bit\<close> by the block size, so the position is the
  number of the block. The run of \<open>count\<close> bits at offset \<open>bitidx\<close> is cut off at the end
  of the field. Try-claim takes the lowest run that fits. The model is sequential: one
  call is one atomic step.
\<close>

text \<open>Modelled from the spec: the position of bit \<open>bitidx\<close> of field \<open>idx\<close>.\<close>

definition mi_bitmap_index_create :: "nat \<Rightarrow> nat \<Rightarrow> nat" where
  "mi_bitmap_index_create idx bitidx = idx * MI_BITMAP_FIELD_BITS + bitidx"

text \<open>Modelled from the spec: the field of a position.\<close>

definition mi_bitmap_index_field :: "nat \<Rightarrow> nat" where
  "mi_bitmap_index_field bitmap_idx = bitmap_idx div MI_BITMAP_FIELD_BITS"

text \<open>Modelled from the spec: the bit offset of a position in its field.\<close>

definition mi_bitmap_index_bit_in_field :: "nat \<Rightarrow> nat" where
  "mi_bitmap_index_bit_in_field bitmap_idx = bitmap_idx mod MI_BITMAP_FIELD_BITS"

text \<open>Modelled from the spec: the number of the block of a position.\<close>

definition mi_bitmap_index_bit :: "nat \<Rightarrow> nat" where
  "mi_bitmap_index_bit bitmap_idx = bitmap_idx"

text \<open>Modelled from the spec: the bits of a run of \<open>count\<close> bits at offset \<open>bitidx\<close>.\<close>

definition mi_bitmap_mask :: "nat \<Rightarrow> nat \<Rightarrow> mi_bitmap_field_t" where
  "mi_bitmap_mask count bitidx = push_bit bitidx (mask count)"

text \<open>
  Modelled from the spec: try-claim of \<open>count\<close> free bits in field \<open>idx\<close>; the answer is the
  bitmap with the run marked and its position, or \<open>None\<close> when no run fits.
\<close>

definition mi_bitmap_try_claim_field ::
  "mi_bitmap_field_t list \<Rightarrow> nat \<Rightarrow> nat \<Rightarrow> (mi_bitmap_field_t list \<times> nat) option" where
  "mi_bitmap_try_claim_field bitmap idx count =
     (case List.find (\<lambda>bitidx. (bitmap ! idx) AND mi_bitmap_mask count bitidx = 0)
             [0 ..< MI_BITMAP_FIELD_BITS + 1 - count] of
        None \<Rightarrow> None
      | Some bitidx \<Rightarrow>
          Some (bitmap[idx := (bitmap ! idx) OR mi_bitmap_mask count bitidx],
                mi_bitmap_index_create idx bitidx))"

text \<open>
  Modelled from the spec: claim of the run at a position; the answer is the bitmap with the
  run marked and whether the run was all zero before.
\<close>

definition mi_bitmap_claim ::
  "mi_bitmap_field_t list \<Rightarrow> nat \<Rightarrow> nat \<Rightarrow> nat \<Rightarrow> mi_bitmap_field_t list \<times> bool" where
  "mi_bitmap_claim bitmap bitmap_fields count bitmap_idx =
     (let idx = mi_bitmap_index_field bitmap_idx;
          bitidx = mi_bitmap_index_bit_in_field bitmap_idx;
          m = mi_bitmap_mask count bitidx;
          prev = bitmap ! idx
      in (bitmap[idx := prev OR m], prev AND m = 0))"

text \<open>
  Modelled from the spec: unclaim of the run at a position; the answer is the bitmap with
  the run cleared and whether the run was all one before.
\<close>

definition mi_bitmap_unclaim ::
  "mi_bitmap_field_t list \<Rightarrow> nat \<Rightarrow> nat \<Rightarrow> nat \<Rightarrow> mi_bitmap_field_t list \<times> bool" where
  "mi_bitmap_unclaim bitmap bitmap_fields count bitmap_idx =
     (let idx = mi_bitmap_index_field bitmap_idx;
          bitidx = mi_bitmap_index_bit_in_field bitmap_idx;
          m = mi_bitmap_mask count bitidx;
          prev = bitmap ! idx
      in (bitmap[idx := prev AND NOT m], prev AND m = m))"

section \<open>Arenas, the registry and the collaborators\<close>

text \<open>
  The arena descriptor \<^verbatim>\<open>mi_arena_t\<close>. \<open>blocks_map\<close> holds the fields of the in-use bitmap,
  one entry per bitmap field. \<^verbatim>\<open>blocks_dirty\<close> is a pointer into the storage of the
  descriptor: \<open>blocks_dirty\<close> holds the fields of the storage from that address to the end
  of the storage, so that an index past the end of this list is an access outside the
  storage.
\<close>

record mi_arena_t =
  start :: nat
  block_count :: nat
  field_count :: nat
  numa_node :: int
  is_zero_init :: bool
  is_large :: bool
  search_idx :: nat
  blocks_dirty :: "mi_bitmap_field_t list"
  blocks_map :: "mi_bitmap_field_t list"

text \<open>
  Calls that leave the arena layer are recorded, in order, in a log. A slot of
  \<^verbatim>\<open>mi_arenas\<close> holds \<open>None\<close> for a null pointer and the descriptor it points to otherwise.
\<close>

datatype os_event =
    Ev_alloc_huge_os_pages nat int nat
  | Ev_free_huge_pages nat nat
  | Ev_os_alloc nat
  | Ev_os_alloc_aligned nat nat bool bool
  | Ev_os_free nat nat
  | Ev_warning_message
  | Ev_verbose_message

record arena_state =
  mi_arenas :: "mi_arena_t option list"
  mi_arena_count :: nat
  os_log :: "os_event list"

text \<open>
  The collaborators of \<^verbatim>\<open>os.c\<close> and the option system are parameters: what they answer
  may depend on the calls made so far. \<open>os_alloc_huge_os_pages\<close> answers the pointer, the
  pages reserved and the size; \<open>os_alloc_aligned\<close> answers the pointer and the value it
  leaves in \<^verbatim>\<open>*large\<close>.
\<close>

record os_env =
  os_numa_node_count :: int
  os_numa_node :: int
  option_large_os_pages :: bool
  os_alloc_huge_os_pages :: "os_event list \<Rightarrow> nat \<Rightarrow> int \<Rightarrow> nat \<Rightarrow> nat \<times> nat \<times> nat"
  os_alloc :: "os_event list \<Rightarrow> nat \<Rightarrow> nat"
  os_alloc_aligned :: "os_event list \<Rightarrow> nat \<Rightarrow> nat \<Rightarrow> bool \<Rightarrow> bool \<Rightarrow> nat \<times> bool"

text \<open>
  What C leaves undefined ends a call with a trap: a remainder by zero, and a read or
  write of a bitmap field outside the storage of its descriptor.
\<close>

datatype trap = Division_by_zero | Access_outside_storage

definition log_event :: "os_event \<Rightarrow> arena_state \<Rightarrow> arena_state" where
  "log_event e st = st\<lparr>os_log := os_log st @ [e]\<rparr>"

section \<open>Thread safe allocation in an arena\<close>

text \<open>
  \<^verbatim>\<open>mi_arena_alloc\<close>: the loop over \<open>visited\<close> and \<open>idx\<close>. The result is the bitmap index and
  the arena after the claim, or \<open>None\<close> for \<^verbatim>\<open>false\<close>.
\<close>

function mi_arena_alloc_loop ::
  "mi_arena_t \<Rightarrow> nat \<Rightarrow> nat \<Rightarrow> nat \<Rightarrow> nat \<Rightarrow> (nat \<times> mi_arena_t) option" where
  "mi_arena_alloc_loop arena fcount blocks visited idx =
     (if visited < fcount then
        (let idx' = (if idx \<ge> fcount then 0 else idx) in
         case mi_bitmap_try_claim_field (blocks_map arena) idx' blocks of
           Some (bitmap', bitmap_idx) \<Rightarrow>
             Some (bitmap_idx, arena\<lparr>blocks_map := bitmap', search_idx := idx'\<rparr>)
         | None \<Rightarrow> mi_arena_alloc_loop arena fcount blocks (visited + 1) (idx' + 1))
      else None)"
  by pat_completeness auto
termination
  by (relation "measure (\<lambda>(arena, fcount, blocks, visited, idx). fcount - visited)") auto

declare mi_arena_alloc_loop.simps [simp del]

definition mi_arena_alloc :: "mi_arena_t \<Rightarrow> nat \<Rightarrow> (nat \<times> mi_arena_t) option" where
  "mi_arena_alloc arena blocks =
     mi_arena_alloc_loop arena (field_count arena) blocks 0 (search_idx arena)"

section \<open>Arena allocation\<close>

record alloc_flags =
  commit :: bool
  large :: bool
  is_zero :: bool
  memid :: size_t

text \<open>
  \<^verbatim>\<open>mi_arena_alloc_from\<close> answers the pointer (\<open>NULL\<close> when the arena has no room), the arena
  and the flags it wrote through its pointer arguments. The claim of the dirty bits goes
  through the pointer \<^verbatim>\<open>blocks_dirty\<close>; when the field of the position is not in the
  storage behind that pointer, the call writes outside the storage.
\<close>

definition mi_arena_alloc_from ::
  "mi_arena_t \<Rightarrow> nat \<Rightarrow> nat \<Rightarrow> alloc_flags \<Rightarrow> trap + (nat \<times> mi_arena_t \<times> alloc_flags)" where
  "mi_arena_alloc_from arena arena_index needed_bcount fl =
     (case mi_arena_alloc arena needed_bcount of
        Some (bitmap_index, arena1) \<Rightarrow>
          if \<not> mi_bitmap_index_field bitmap_index < length (blocks_dirty arena1)
          then Inl Access_outside_storage
          else
            (let (dirty', zero) = mi_bitmap_claim (blocks_dirty arena1) (field_count arena1)
                                    needed_bcount bitmap_index;
                 arena2 = arena1\<lparr>blocks_dirty := dirty'\<rparr>;
                 fl' = fl\<lparr>is_zero := zero,
                          memid := mi_memid_create (of_nat arena_index) (of_nat bitmap_index),
                          commit := True,
                          large := is_large arena2\<rparr>
             in Inr (start arena2
                       + (mi_bitmap_index_bit bitmap_index * MI_ARENA_BLOCK_SIZE) mod 2 ^ 64,
                     arena2, fl'))
      | None \<Rightarrow> Inr (NULL, arena, fl))"

text \<open>
  One of the two loops of \<^verbatim>\<open>_mi_arena_alloc_aligned\<close> over \<^verbatim>\<open>mi_arenas\<close>; they differ only
  in the test on the NUMA node, which is the parameter \<open>numa_ok\<close>.
\<close>

function mi_arena_scan ::
  "(mi_arena_t \<Rightarrow> bool) \<Rightarrow> nat \<Rightarrow> nat \<Rightarrow> mi_arena_t option list \<Rightarrow> alloc_flags
     \<Rightarrow> trap + (nat \<times> mi_arena_t option list \<times> alloc_flags)" where
  "mi_arena_scan numa_ok bcount i arenas fl =
     (if i < MI_MAX_ARENAS then
        (case arenas ! i of
           None \<Rightarrow> Inr (NULL, arenas, fl)
         | Some arena \<Rightarrow>
             if numa_ok arena \<and> (large fl \<or> \<not> is_large arena) then
               (case mi_arena_alloc_from arena i bcount fl of
                  Inl t \<Rightarrow> Inl t
                | Inr r \<Rightarrow>
                    (let arenas' = arenas[i := Some (fst (snd r))]
                     in if fst r \<noteq> NULL then Inr (fst r, arenas', snd (snd r))
                        else mi_arena_scan numa_ok bcount (i + 1) arenas' (snd (snd r))))
             else mi_arena_scan numa_ok bcount (i + 1) arenas fl)
      else Inr (NULL, arenas, fl))"
  by pat_completeness auto
termination
  by (relation "measure (\<lambda>(numa_ok, bcount, i, arenas, fl). MI_MAX_ARENAS - i)") auto

declare mi_arena_scan.simps [simp del]

text \<open>The last lines of \<^verbatim>\<open>_mi_arena_alloc_aligned\<close>: "finally, fall back to the OS".\<close>

definition mi_arena_os_fallback ::
  "os_env \<Rightarrow> arena_state \<Rightarrow> nat \<Rightarrow> nat \<Rightarrow> alloc_flags \<Rightarrow> nat \<times> alloc_flags \<times> arena_state" where
  "mi_arena_os_fallback os st sz alignment fl =
     (let fl1 = fl\<lparr>is_zero := True, memid := MI_MEMID_OS\<rparr>;
          fl2 = (if large fl1 then fl1\<lparr>large := option_large_os_pages os\<rparr> else fl1);
          r = os_alloc_aligned os (os_log st) sz alignment (commit fl2) (large fl2)
      in (fst r, fl2\<lparr>large := snd r\<rparr>,
          log_event (Ev_os_alloc_aligned sz alignment (commit fl2) (large fl2)) st))"

text \<open>
  \<^verbatim>\<open>_mi_arena_alloc_aligned\<close>. The argument \<open>large0\<close> is \<open>None\<close> when the caller passes a null
  pointer for \<^verbatim>\<open>large\<close>. The result is the pointer, the flags as the call leaves them and
  the state.
\<close>

definition mi_arena_alloc_aligned ::
  "os_env \<Rightarrow> arena_state \<Rightarrow> nat \<Rightarrow> nat \<Rightarrow> bool \<Rightarrow> bool option
     \<Rightarrow> trap + (nat \<times> alloc_flags \<times> arena_state)" where
  "mi_arena_alloc_aligned os st sz alignment commit0 large0 =
     (let fl0 = \<lparr>commit = commit0,
                 large = (case large0 of None \<Rightarrow> False | Some l \<Rightarrow> l),
                 is_zero = False,
                 memid = MI_MEMID_OS\<rparr>
      in if alignment \<le> MI_SEGMENT_ALIGN \<and> sz \<le> MI_ARENA_MAX_OBJ_SIZE
            \<and> sz \<ge> MI_ARENA_MIN_OBJ_SIZE then
           (let bcount = mi_block_count_of_size sz;
                nnode = os_numa_node os
            in case mi_arena_scan (\<lambda>a. numa_node a < 0 \<or> numa_node a = nnode)
                      bcount 0 (mi_arenas st) fl0 of
                 Inl t \<Rightarrow> Inl t
               | Inr r1 \<Rightarrow>
                   if fst r1 \<noteq> NULL
                   then Inr (fst r1, snd (snd r1), st\<lparr>mi_arenas := fst (snd r1)\<rparr>)
                   else
                     (case mi_arena_scan (\<lambda>a. numa_node a \<ge> 0 \<and> numa_node a \<noteq> nnode)
                             bcount 0 (fst (snd r1)) (snd (snd r1)) of
                        Inl t \<Rightarrow> Inl t
                      | Inr r2 \<Rightarrow>
                          if fst r2 \<noteq> NULL
                          then Inr (fst r2, snd (snd r2), st\<lparr>mi_arenas := fst (snd r2)\<rparr>)
                          else Inr (mi_arena_os_fallback os (st\<lparr>mi_arenas := fst (snd r2)\<rparr>)
                                      sz alignment (snd (snd r2)))))
         else Inr (mi_arena_os_fallback os st sz alignment fl0))"

section \<open>Arena free\<close>

text \<open>
  \<^verbatim>\<open>_mi_arena_free\<close>. Each way out of the function is an outcome. The source reads
  \<^verbatim>\<open>mi_arenas[arena_idx]\<close> after a debugging assertion only; with \<^verbatim>\<open>arena_idx\<close> not below
  \<^verbatim>\<open>MI_MAX_ARENAS\<close> the read is outside the array, which is its own outcome here.
\<close>

datatype free_outcome =
    Free_nothing
  | Free_os
  | Free_arena
  | Fatal_non_existent_arena
  | Fatal_non_existent_arena_block
  | Fatal_already_freed
  | Read_outside_mi_arenas

definition mi_arena_free ::
  "arena_state \<Rightarrow> nat \<Rightarrow> nat \<Rightarrow> size_t \<Rightarrow> free_outcome \<times> arena_state" where
  "mi_arena_free st p sz memid0 =
     (if p = NULL then (Free_nothing, st)
      else if sz = 0 then (Free_nothing, st)
      else if memid0 = MI_MEMID_OS then (Free_os, log_event (Ev_os_free p sz) st)
      else
        (let arena_idx = unat (fst (mi_memid_indices memid0));
             bitmap_idx = unat (snd (mi_memid_indices memid0))
         in if \<not> arena_idx < MI_MAX_ARENAS then (Read_outside_mi_arenas, st)
            else
              (case mi_arenas st ! arena_idx of
                 None \<Rightarrow> (Fatal_non_existent_arena, st)
               | Some arena \<Rightarrow>
                   if field_count arena \<le> mi_bitmap_index_field bitmap_idx
                   then (Fatal_non_existent_arena_block, st)
                   else
                     (let blocks = mi_block_count_of_size sz;
                          r = mi_bitmap_unclaim (blocks_map arena) (field_count arena)
                                blocks bitmap_idx;
                          st' = st\<lparr>mi_arenas :=
                                  (mi_arenas st)[arena_idx := Some (arena\<lparr>blocks_map := fst r\<rparr>)]\<rparr>
                      in if \<not> snd r then (Fatal_already_freed, st')
                         else (Free_arena, st')))))"

section \<open>Add an arena\<close>

text \<open>
  Modelled from the spec: \<^verbatim>\<open>mi_atomic_addu\<close> and \<^verbatim>\<open>mi_atomic_subu\<close> are declared in
  \<^verbatim>\<open>mimalloc-atomic.h\<close>, which is not part of the sources. The spec has the registry
  reserve "the next slot index" with slots "contiguous from index 0": the value answered
  is the counter before the addition. The answer is the pair of that value and the
  counter after the operation, which wraps at 64 bits.
\<close>

definition mi_atomic_addu :: "nat \<Rightarrow> nat \<Rightarrow> nat \<times> nat" where
  "mi_atomic_addu v add = (v, (v + add) mod 2 ^ 64)"

text \<open>Modelled from the spec: the subtraction that puts the counter back.\<close>

definition mi_atomic_subu :: "nat \<Rightarrow> nat \<Rightarrow> nat \<times> nat" where
  "mi_atomic_subu v sub = (v, (v + 2 ^ 64 - sub mod 2 ^ 64) mod 2 ^ 64)"

definition mi_arena_add :: "mi_arena_t \<Rightarrow> arena_state \<Rightarrow> bool \<times> arena_state" where
  "mi_arena_add arena st =
     (let r = mi_atomic_addu (mi_arena_count st) 1;
          i = fst r;
          st1 = st\<lparr>mi_arena_count := snd r\<rparr>
      in if i \<ge> MI_MAX_ARENAS
         then (False, st1\<lparr>mi_arena_count := snd (mi_atomic_subu (mi_arena_count st1) 1)\<rparr>)
         else (True, st1\<lparr>mi_arenas := (mi_arenas st1)[i := Some arena]\<rparr>))"

section \<open>Reserve a huge page arena\<close>

definition ENOMEM :: int where
  "ENOMEM = 12"

text \<open>
  The remainder of C on \<^verbatim>\<open>int\<close> truncates towards zero; a zero divisor is undefined and is
  a trap in the functions that divide.
\<close>

definition c_rem :: "int \<Rightarrow> int \<Rightarrow> int" where
  "c_rem a b = sgn a * (\<bar>a\<bar> mod \<bar>b\<bar>)"

text \<open>The sizes of the descriptor and of a bitmap field on a 64-bit target.\<close>

definition sizeof_mi_arena_t :: nat where
  "sizeof_mi_arena_t = 56"

definition sizeof_mi_bitmap_field_t :: nat where
  "sizeof_mi_bitmap_field_t = 8"

text \<open>
  \<^verbatim>\<open>mi_reserve_huge_os_pages_at\<close>. The storage of the descriptor comes zeroed from the OS.
  It has \<open>asize\<close> bytes: the descriptor, whose last member is the first field of
  \<^verbatim>\<open>blocks_map\<close>, and \<open>2 * fields\<close> fields more, so \<open>1 + 2 * fields\<close> fields from
  \<^verbatim>\<open>blocks_map[0]\<close> on. The source sets \<^verbatim>\<open>blocks_dirty = &arena->blocks_map[bcount]\<close>, which
  leaves \<open>1 + 2 * fields - bcount\<close> fields of the storage behind the pointer, and none
  when \<open>bcount\<close> is larger.
\<close>

definition mi_reserve_huge_os_pages_at ::
  "os_env \<Rightarrow> arena_state \<Rightarrow> nat \<Rightarrow> int \<Rightarrow> nat \<Rightarrow> trap + (int \<times> arena_state)" where
  "mi_reserve_huge_os_pages_at os st pages nnode timeout_msecs =
     (if pages = 0 then Inr (0, st)
      else
        (let nnode1 = (if nnode < - 1 then - 1 else nnode)
         in if nnode1 \<ge> 0 \<and> os_numa_node_count os = 0 then Inl Division_by_zero
            else
              (let nnode2 = (if nnode1 \<ge> 0 then c_rem nnode1 (os_numa_node_count os) else nnode1);
                   r = os_alloc_huge_os_pages os (os_log st) pages nnode2 timeout_msecs;
                   p = fst r;
                   pages_reserved = fst (snd r);
                   hsize = snd (snd r);
                   st1 = log_event (Ev_alloc_huge_os_pages pages nnode2 timeout_msecs) st
               in if p = NULL \<or> pages_reserved = 0
                  then Inr (ENOMEM, log_event Ev_warning_message st1)
                  else
                    (let st2 = log_event Ev_verbose_message st1;
                         bcount = mi_block_count_of_size hsize;
                         fields = (bcount + MI_BITMAP_FIELD_BITS - 1) div MI_BITMAP_FIELD_BITS;
                         asize = sizeof_mi_arena_t + 2 * fields * sizeof_mi_bitmap_field_t;
                         arena_p = os_alloc os (os_log st2) asize;
                         st3 = log_event (Ev_os_alloc asize) st2
                     in if arena_p = NULL
                        then Inr (ENOMEM, log_event (Ev_free_huge_pages p hsize) st3)
                        else
                          (let arena = \<lparr>start = p, block_count = bcount, field_count = fields,
                                         numa_node = nnode2, is_zero_init = True,
                                         is_large = True, search_idx = 0,
                                         blocks_dirty = replicate (1 + 2 * fields - bcount) 0,
                                         blocks_map = replicate fields 0\<rparr>;
                               post = fields * MI_BITMAP_FIELD_BITS - bcount;
                               arena' =
                                 (if post > 0 then
                                    (let postidx = mi_bitmap_index_create (fields - 1)
                                                     (MI_BITMAP_FIELD_BITS - post)
                                     in arena\<lparr>blocks_map :=
                                          fst (mi_bitmap_claim (blocks_map arena) fields
                                                 post postidx)\<rparr>)
                                  else arena)
                           in Inr (0, snd (mi_arena_add arena' st3)))))))"

text \<open>
  \<^verbatim>\<open>mi_reserve_huge_os_pages_interleave\<close>: the loop over the NUMA nodes, then the function.
\<close>

function mi_reserve_interleave_loop ::
  "os_env \<Rightarrow> int \<Rightarrow> nat \<Rightarrow> nat \<Rightarrow> nat \<Rightarrow> int \<Rightarrow> nat \<Rightarrow> arena_state
     \<Rightarrow> trap + (int \<times> arena_state)" where
  "mi_reserve_interleave_loop os numa_count pages_per pages_mod timeout_per nnode pages st =
     (if nnode < numa_count \<and> pages > 0 then
        (let node_pages = (if nat nnode < pages_mod then pages_per + 1 else pages_per)
         in case mi_reserve_huge_os_pages_at os st node_pages nnode timeout_per of
              Inl t \<Rightarrow> Inl t
            | Inr (err, st') \<Rightarrow>
                if err \<noteq> 0 then Inr (err, st')
                else mi_reserve_interleave_loop os numa_count pages_per pages_mod timeout_per
                       (nnode + 1) (if pages < node_pages then 0 else pages - node_pages) st')
      else Inr (0, st))"
  by pat_completeness auto
termination
  by (relation "measure (\<lambda>(os, numa_count, pages_per, pages_mod, timeout_per, nnode, pages, st).
        nat (numa_count - nnode))") auto

declare mi_reserve_interleave_loop.simps [simp del]

definition mi_reserve_huge_os_pages_interleave ::
  "os_env \<Rightarrow> arena_state \<Rightarrow> nat \<Rightarrow> nat \<Rightarrow> trap + (int \<times> arena_state)" where
  "mi_reserve_huge_os_pages_interleave os st pages timeout_msecs =
     (if pages = 0 then Inr (0, st)
      else
        (let numa_count = (if os_numa_node_count os \<le> 0 then 1 else os_numa_node_count os);
             pages_per = pages div nat numa_count;
             pages_mod = pages mod nat numa_count;
             timeout_per = (timeout_msecs div nat numa_count + 50) mod 2 ^ 64
         in mi_reserve_interleave_loop os numa_count pages_per pages_mod timeout_per 0 pages st))"

section \<open>The registry as a sequence of published slots\<close>

text \<open>
  The registry is in order when the slots below \<^verbatim>\<open>mi_arena_count\<close> are the non-empty ones.
\<close>

definition registry_ok :: "arena_state \<Rightarrow> bool" where
  "registry_ok st \<longleftrightarrow>
     length (mi_arenas st) = MI_MAX_ARENAS \<and> mi_arena_count st \<le> MI_MAX_ARENAS \<and>
     (\<forall>i < MI_MAX_ARENAS. (mi_arenas st ! i \<noteq> None) = (i < mi_arena_count st))"

section \<open>The scan of the block allocator, in words\<close>

text \<open>
  The order in which the fields are tried: from the start field, which is \<^verbatim>\<open>search_idx\<close>
  or field 0 when \<^verbatim>\<open>search_idx\<close> is not below the number of fields, with wrap-around
  modulo the number of fields. The first field of the order whose try-claim succeeds
  gives the result and becomes the new \<^verbatim>\<open>search_idx\<close>.
\<close>

definition mi_arena_scan_order :: "nat \<Rightarrow> nat \<Rightarrow> nat list" where
  "mi_arena_scan_order fcount sidx =
     map (\<lambda>v. ((if sidx \<ge> fcount then 0 else sidx) + v) mod fcount) [0 ..< fcount]"

fun claim_first_in_order :: "mi_arena_t \<Rightarrow> nat \<Rightarrow> nat list \<Rightarrow> (nat \<times> mi_arena_t) option" where
  "claim_first_in_order arena blocks [] = None"
| "claim_first_in_order arena blocks (i # rest) =
     (case mi_bitmap_try_claim_field (blocks_map arena) i blocks of
        Some (bitmap', bitmap_idx) \<Rightarrow>
          Some (bitmap_idx, arena\<lparr>blocks_map := bitmap', search_idx := i\<rparr>)
      | None \<Rightarrow> claim_first_in_order arena blocks rest)"

section \<open>The bits past the last block\<close>

text \<open>
  The bits of the in-use bitmap from \<^verbatim>\<open>block_count\<close> up to the end of the last field are
  claimed. \<open>mi_arena_run\<close> runs a list of operations on one arena, one after the other:
  \<^verbatim>\<open>mi_arena_alloc\<close> for a block count, or the unclaim of \<^verbatim>\<open>_mi_arena_free\<close> for a position
  and a block count. It collects the position and the block count of every allocation
  that succeeds. \<open>frees_inside\<close> holds when every block that the list frees lies inside
  the arena, as every block does that was allocated from it.
\<close>

definition trailing_bits_claimed :: "mi_arena_t \<Rightarrow> bool" where
  "trailing_bits_claimed a \<longleftrightarrow>
     (\<forall>i \<in> {block_count a ..< field_count a * MI_BITMAP_FIELD_BITS}.
        bit (blocks_map a ! (i div MI_BITMAP_FIELD_BITS)) (i mod MI_BITMAP_FIELD_BITS))"

datatype arena_op = Op_alloc nat | Op_free nat nat

fun mi_arena_run :: "mi_arena_t \<Rightarrow> arena_op list \<Rightarrow> (nat \<times> nat) list" where
  "mi_arena_run a [] = []"
| "mi_arena_run a (Op_alloc n # ops) =
     (case mi_arena_alloc a n of
        None \<Rightarrow> mi_arena_run a ops
      | Some (bitmap_idx, a') \<Rightarrow> (bitmap_idx, n) # mi_arena_run a' ops)"
| "mi_arena_run a (Op_free bitmap_idx n # ops) =
     mi_arena_run
       (a\<lparr>blocks_map := fst (mi_bitmap_unclaim (blocks_map a) (field_count a) n bitmap_idx)\<rparr>)
       ops"

fun frees_inside :: "nat \<Rightarrow> arena_op list \<Rightarrow> bool" where
  "frees_inside bc [] = True"
| "frees_inside bc (Op_alloc n # ops) = frees_inside bc ops"
| "frees_inside bc (Op_free bitmap_idx n # ops) = (bitmap_idx + n \<le> bc \<and> frees_inside bc ops)"

text \<open>
  The in-use bitmap of an arena fits its block count: one field for every 64 blocks,
  rounded up, and the bits past the last block claimed.
\<close>

definition arena_bitmap_ok :: "mi_arena_t \<Rightarrow> bool" where
  "arena_bitmap_ok a \<longleftrightarrow>
     length (blocks_map a) = field_count a
     \<and> block_count a \<le> field_count a * MI_BITMAP_FIELD_BITS
     \<and> field_count a * MI_BITMAP_FIELD_BITS < block_count a + MI_BITMAP_FIELD_BITS
     \<and> trailing_bits_claimed a"

section \<open>The interleaved reservation, in words\<close>

text \<open>
  The number of pages for node \<open>i\<close> of \<open>k\<close> nodes out of a budget of \<open>pages\<close>: the quotient,
  and one more for the nodes below the remainder. \<open>reserve_nodes_in_order\<close> calls
  \<^verbatim>\<open>mi_reserve_huge_os_pages_at\<close> for a list of page counts and nodes, one after the other
  with the same timeout, and stops at the first answer other than 0.
\<close>

definition interleave_share :: "nat \<Rightarrow> nat \<Rightarrow> nat \<Rightarrow> nat" where
  "interleave_share pages k i = (if i < pages mod k then pages div k + 1 else pages div k)"

fun reserve_nodes_in_order ::
  "os_env \<Rightarrow> nat \<Rightarrow> (nat \<times> int) list \<Rightarrow> arena_state \<Rightarrow> trap + (int \<times> arena_state)" where
  "reserve_nodes_in_order os timeout_per [] st = Inr (0, st)"
| "reserve_nodes_in_order os timeout_per ((node_pages, nnode) # rest) st =
     (case mi_reserve_huge_os_pages_at os st node_pages nnode timeout_per of
        Inl t \<Rightarrow> Inl t
      | Inr (err, st') \<Rightarrow>
          if err \<noteq> 0 then Inr (err, st')
          else reserve_nodes_in_order os timeout_per rest st')"

section \<open>Small configurations\<close>

text \<open>Concrete collaborators, arenas and registries on which the properties are run.\<close>

text \<open>A collaborator that reserves every huge page it is asked for, at 1GiB a page.\<close>

definition demo_os :: os_env where
  "demo_os = \<lparr>os_numa_node_count = 2, os_numa_node = 0, option_large_os_pages = True,
     os_alloc_huge_os_pages = (\<lambda>log pages nnode timeout. (1073741824, pages, pages * 1073741824)),
     os_alloc = (\<lambda>log sz. 4096),
     os_alloc_aligned = (\<lambda>log sz alignment commit large. (8192, large))\<rparr>"

text \<open>The registry before any arena is added.\<close>

definition empty_state :: arena_state where
  "empty_state = \<lparr>mi_arenas = replicate 64 None, mi_arena_count = 0, os_log = []\<rparr>"

text \<open>The same collaborator when it has no storage left for a descriptor.\<close>

definition demo_os_no_storage :: os_env where
  "demo_os_no_storage = demo_os\<lparr>os_alloc := (\<lambda>log sz. NULL)\<rparr>"

text \<open>The same collaborator when the option for large OS pages is off.\<close>

definition demo_os_no_large :: os_env where
  "demo_os_no_large = demo_os\<lparr>option_large_os_pages := False\<rparr>"

text \<open>An arena of 64 blocks with nothing in use, alone in the registry.\<close>

definition demo_free_arena :: mi_arena_t where
  "demo_free_arena = \<lparr>start = 1073741824, block_count = 64, field_count = 1, numa_node = - 1,
     is_zero_init = True, is_large = True, search_idx = 0,
     blocks_dirty = [0], blocks_map = [0]\<rparr>"

definition demo_free_state :: arena_state where
  "demo_free_state =
     \<lparr>mi_arenas = Some demo_free_arena # replicate 63 None, mi_arena_count = 1, os_log = []\<rparr>"

text \<open>
  An arena of 32 blocks over one bitmap field, the bits from 32 on claimed, with the
  blocks 0 and 1 in use and one field of dirty bitmap, registered in slot 0 of an
  otherwise empty registry.
\<close>

definition demo_arena :: mi_arena_t where
  "demo_arena = \<lparr>start = 1073741824, block_count = 32, field_count = 1, numa_node = - 1,
     is_zero_init = True, is_large = True, search_idx = 0,
     blocks_dirty = [0], blocks_map = [0xFFFFFFFF00000003]\<rparr>"

definition demo_state :: arena_state where
  "demo_state =
     \<lparr>mi_arenas = Some demo_arena # replicate 63 None, mi_arena_count = 1, os_log = []\<rparr>"

text \<open>
  The arena that the first reservation of one huge page of 1GiB on node 0 builds, and the
  registry after that reservation. The arena has 32 blocks and one bitmap field; the
  storage of its descriptor has 3 fields from \<^verbatim>\<open>blocks_map[0]\<close> on, so that none is left
  behind \<^verbatim>\<open>&blocks_map[32]\<close>.
\<close>

definition demo_built_arena :: mi_arena_t where
  "demo_built_arena = \<lparr>start = 1073741824, block_count = 32, field_count = 1, numa_node = 0,
     is_zero_init = True, is_large = True, search_idx = 0,
     blocks_dirty = [], blocks_map = [0xFFFFFFFF00000000]\<rparr>"

definition demo_built_state :: arena_state where
  "demo_built_state =
     \<lparr>mi_arenas = Some demo_built_arena # replicate 63 None,
      mi_arena_count = 1,
      os_log = [Ev_alloc_huge_os_pages 1 0 100, Ev_verbose_message, Ev_os_alloc 72]\<rparr>"

text \<open>The same registry when the 32 blocks of the arena are in use.\<close>

definition demo_built_state_in_use :: arena_state where
  "demo_built_state_in_use =
     demo_built_state\<lparr>mi_arenas :=
       Some (demo_built_arena\<lparr>blocks_map := [0xFFFFFFFFFFFFFFFF]\<rparr>) # replicate 63 None\<rparr>"

section \<open>Properties of the memory id\<close>

lemma memid_low_byte:
  "(push_bit 8 (b :: size_t) OR (x AND 0xFF)) AND 0xFF = x AND 0xFF"
proof -
  have m: "(255 :: size_t) = mask 8"
    by (simp add: mask_eq_exp_minus_1)
  show ?thesis
    unfolding m by (rule bit_word_eqI) (auto simp add: bit_simps)
qed

lemma memid_high_bits:
  "drop_bit 8 (push_bit 8 (b :: size_t) OR (x AND 0xFF)) = drop_bit 8 (push_bit 8 b)"
proof (rule bit_word_eqI)
  fix n
  assume "n < LENGTH(64)"
  have "(255 :: size_t) = mask 8"
    by (simp add: mask_eq_exp_minus_1)
  then show "bit (drop_bit 8 (push_bit 8 b OR (x AND 0xFF))) n
      = bit (drop_bit 8 (push_bit 8 b)) n"
    by (simp add: bit_simps)
qed

lemma arena_byte_small:
  assumes "(a :: size_t) < 64"
  shows "(a + 1) AND 0xFF = a + 1" and "a + 1 \<noteq> 0"
proof -
  have a: "unat a < 64"
    using assms by (simp add: word_less_nat_alt)
  then have u: "unat (a + 1) = unat a + 1"
    by (simp add: unat_word_ariths)
  have "a + 1 < 2 ^ 8"
    using a u by (simp add: word_less_nat_alt)
  then have "(a + 1) AND mask 8 = a + 1"
    by (rule less_mask_eq)
  then show "(a + 1) AND 0xFF = a + 1"
    by (simp add: mask_eq_exp_minus_1)
  show "a + 1 \<noteq> 0"
    using u by (metis Suc_eq_plus1 nat.distinct(1) unat_0)
qed

text \<open>
  C1. Memory-id round-trip: for every arena index below \<^verbatim>\<open>MI_MAX_ARENAS\<close> and every bitmap
  index that survives \<^verbatim>\<open>(bitmap_index << 8) >> 8\<close>, decoding the id made by
  \<^verbatim>\<open>mi_memid_create\<close> gives back the same pair, and the id is never \<^verbatim>\<open>MI_MEMID_OS\<close>.
\<close>

theorem memid_roundtrip:
  assumes "unat arena_index < MI_MAX_ARENAS"
    and "drop_bit 8 (push_bit 8 bitmap_index) = bitmap_index"
  shows "mi_memid_indices (mi_memid_create arena_index bitmap_index) = (arena_index, bitmap_index)
    \<and> mi_memid_create arena_index bitmap_index \<noteq> MI_MEMID_OS"
proof -
  have lt: "arena_index < 64"
    using assms(1) by (simp add: MI_MAX_ARENAS_def word_less_nat_alt)
  have low: "mi_memid_create arena_index bitmap_index AND 0xFF = arena_index + 1"
    unfolding mi_memid_create_def memid_low_byte by (rule arena_byte_small(1) [OF lt])
  have high: "drop_bit 8 (mi_memid_create arena_index bitmap_index) = bitmap_index"
    unfolding mi_memid_create_def using assms(2) by (simp only: memid_high_bits)
  have "mi_memid_create arena_index bitmap_index \<noteq> 0"
  proof
    assume "mi_memid_create arena_index bitmap_index = 0"
    with low have "arena_index + 1 = 0" by simp
    with arena_byte_small(2) [OF lt] show False by simp
  qed
  with low high show ?thesis
    by (simp add: mi_memid_indices_def MI_MEMID_OS_def)
qed

theorem memid_roundtrip_witness:
  "mi_memid_indices (mi_memid_create 3 70) = (3, 70) \<and> mi_memid_create 3 70 \<noteq> MI_MEMID_OS"
  using memid_roundtrip [of 3 70] by (simp add: MI_MAX_ARENAS_def)

section \<open>Properties of the bitmap primitive\<close>

lemma mask_bits:
  "bit (mi_bitmap_mask n b) i \<longleftrightarrow> b \<le> i \<and> i < 64 \<and> i < b + n"
  unfolding mi_bitmap_mask_def
  by (simp add: bit_push_bit_iff bit_mask_iff) (auto simp add: less_diff_conv2 bit_imp_possible_bit)

lemma and_mask_all_ones:
  "(w AND mi_bitmap_mask n b = mi_bitmap_mask n b)
     \<longleftrightarrow> (\<forall>j<n. b + j < 64 \<longrightarrow> bit w (b + j))"
proof
  assume eq: "w AND mi_bitmap_mask n b = mi_bitmap_mask n b"
  show "\<forall>j<n. b + j < 64 \<longrightarrow> bit w (b + j)"
  proof (intro allI impI)
    fix j assume "j < n" "b + j < 64"
    then have "bit (mi_bitmap_mask n b) (b + j)"
      by (simp add: mask_bits)
    then have "bit (w AND mi_bitmap_mask n b) (b + j)"
      by (simp only: eq)
    then show "bit w (b + j)"
      by (simp only: bit_and_iff)
  qed
next
  assume all: "\<forall>j<n. b + j < 64 \<longrightarrow> bit w (b + j)"
  show "w AND mi_bitmap_mask n b = mi_bitmap_mask n b"
  proof (rule bit_word_eqI)
    fix i assume "i < LENGTH(64)"
    show "bit (w AND mi_bitmap_mask n b) i = bit (mi_bitmap_mask n b) i"
    proof (cases "bit (mi_bitmap_mask n b) i")
      case True
      then have i: "b \<le> i" "i < 64" "i - b < n"
        by (auto simp add: mask_bits)
      then have "b + (i - b) < 64" by simp
      with all i have "bit w (b + (i - b))" by blast
      with i have "bit w i" by simp
      with True show ?thesis by (simp add: bit_and_iff del: bit_mask_iff)
    next
      case False
      then show ?thesis by (simp add: bit_and_iff)
    qed
  qed
qed

section \<open>Properties of the free router\<close>

lemma memid_indices_1: "mi_memid_indices 1 = (0, 0)"
  by (simp add: mi_memid_indices_def drop_bit_eq_div)

lemma memid_indices_0x41: "mi_memid_indices 0x41 = (0x40, 0)"
  by (simp add: mi_memid_indices_def drop_bit_eq_div)

text \<open>
  C2. Check of the decoded arena index: \<^verbatim>\<open>_mi_arena_free\<close> is to test the decoded arena
  index against \<^verbatim>\<open>MI_MAX_ARENAS\<close> before it reads \<^verbatim>\<open>mi_arenas\<close>, and to report a fatal error
  for an index of 64 or more. The source makes that test in a debugging assertion only,
  where the tests for an empty slot and for a field out of range are made at run time as
  well. With the memory id \<^verbatim>\<open>0x41\<close>, whose low byte gives arena index 64, a non-null
  pointer and a non-zero size, the call reads \<^verbatim>\<open>mi_arenas[64]\<close>, outside the 64 slots, and
  reports no fatal error.
\<close>

theorem arena_free_index_unchecked:
  "mi_arena_free st (Suc p) (Suc sz) 0x41 = (Read_outside_mi_arenas, st)"
  by (simp add: mi_arena_free_def NULL_def MI_MEMID_OS_def memid_indices_0x41 MI_MAX_ARENAS_def)

text \<open>
  C3. Double-free detection: a call of \<^verbatim>\<open>_mi_arena_free\<close> with a non-null pointer, a
  non-zero size and a memory id other than \<^verbatim>\<open>MI_MEMID_OS\<close> that decodes to a non-empty
  arena slot and to a field inside the arena's \<^verbatim>\<open>field_count\<close> ends without a fatal error
  when every bit of the run of \<^verbatim>\<open>mi_block_count_of_size size\<close> bits at the decoded
  position was set, and with the fatal error "already freed" when one of them was clear.
\<close>

theorem arena_free_double_free:
  assumes "p \<noteq> NULL" and "sz \<noteq> 0" and "memid0 \<noteq> MI_MEMID_OS"
    and "mi_memid_indices memid0 = (ai, bi)"
    and "unat ai < MI_MAX_ARENAS"
    and "mi_arenas st ! unat ai = Some arena"
    and "mi_bitmap_index_field (unat bi) < field_count arena"
  shows "fst (mi_arena_free st p sz memid0) =
     (if \<forall>j < mi_block_count_of_size sz.
           mi_bitmap_index_bit_in_field (unat bi) + j < MI_BITMAP_FIELD_BITS \<longrightarrow>
           bit (blocks_map arena ! mi_bitmap_index_field (unat bi))
               (mi_bitmap_index_bit_in_field (unat bi) + j)
      then Free_arena else Fatal_already_freed)"
proof -
  let ?r = "mi_bitmap_unclaim (blocks_map arena) (field_count arena)
              (mi_block_count_of_size sz) (unat bi)"
  have ones: "snd ?r \<longleftrightarrow> (\<forall>j < mi_block_count_of_size sz.
           mi_bitmap_index_bit_in_field (unat bi) + j < MI_BITMAP_FIELD_BITS \<longrightarrow>
           bit (blocks_map arena ! mi_bitmap_index_field (unat bi))
               (mi_bitmap_index_bit_in_field (unat bi) + j))"
    by (simp add: mi_bitmap_unclaim_def Let_def and_mask_all_ones MI_BITMAP_FIELD_BITS_def)
  have "fst (mi_arena_free st p sz memid0) = (if snd ?r then Free_arena else Fatal_already_freed)"
    using assms by (simp add: mi_arena_free_def Let_def)
  then show ?thesis
    by (simp only: ones)
qed

lemma block_count_examples:
  "mi_block_count_of_size 33554432 = 1" "mi_block_count_of_size 100663296 = 3"
  by (simp_all add: mi_block_count_of_size_def mi_divide_up_def MI_ARENA_BLOCK_SIZE_def
        MI_SEGMENT_ALIGN_def MI_SEGMENT_SIZE_def)

theorem arena_free_double_free_witness:
  "fst (mi_arena_free demo_state 1073741824 33554432 1) = Free_arena
   \<and> fst (mi_arena_free demo_state 1073741824 100663296 1) = Fatal_already_freed"
proof -
  have bits: "bit (0xFFFFFFFF00000003 :: 64 word) 0" "bit (0xFFFFFFFF00000003 :: 64 word) 1"
    "\<not> bit (0xFFFFFFFF00000003 :: 64 word) 2"
    by (simp_all add: bit_iff_odd drop_bit_eq_div)
  have one: "fst (mi_arena_free demo_state 1073741824 33554432 1) = Free_arena"
    using arena_free_double_free [of 1073741824 33554432 1 0 0 demo_state demo_arena] bits
    by (simp add: NULL_def MI_MEMID_OS_def memid_indices_1 MI_MAX_ARENAS_def demo_state_def
        block_count_examples
        mi_bitmap_index_field_def mi_bitmap_index_bit_in_field_def MI_BITMAP_FIELD_BITS_def
        demo_arena_def)
  have inst: "fst (mi_arena_free demo_state 1073741824 100663296 1) =
      (if \<forall>j<3::nat. bit (0xFFFFFFFF00000003 :: 64 word) j then Free_arena
       else Fatal_already_freed)"
    using arena_free_double_free [of 1073741824 100663296 1 0 0 demo_state demo_arena]
    by (simp add: NULL_def MI_MEMID_OS_def memid_indices_1 MI_MAX_ARENAS_def demo_state_def
        block_count_examples
        mi_bitmap_index_field_def mi_bitmap_index_bit_in_field_def MI_BITMAP_FIELD_BITS_def
        demo_arena_def)
  have "\<not> (\<forall>j<3::nat. bit (0xFFFFFFFF00000003 :: 64 word) j)"
    using bits(3) by (auto intro!: exI [of _ 2])
  with inst have three:
    "fst (mi_arena_free demo_state 1073741824 100663296 1) = Fatal_already_freed"
    by (simp only: if_False)
  from one three show ?thesis by simp
qed

section \<open>Properties of the registry\<close>

lemma atomic_addu_subu:
  assumes "c < 2 ^ 64"
  shows "snd (mi_atomic_subu (snd (mi_atomic_addu c 1)) 1) = c"
proof (cases "c + 1 < 2 ^ 64")
  case True
  then have "(c + 1) mod 2 ^ 64 = c + 1" by simp
  moreover have "(c + 1 + 2 ^ 64 - 1) mod 2 ^ 64 = c"
    using assms by simp
  ultimately show ?thesis
    by (simp add: mi_atomic_addu_def mi_atomic_subu_def)
next
  case False
  with assms have c: "c = 2 ^ 64 - 1" by simp
  show ?thesis
    unfolding c by (simp add: mi_atomic_addu_def mi_atomic_subu_def)
qed

lemma arena_add_full:
  assumes "MI_MAX_ARENAS \<le> mi_arena_count st" and "mi_arena_count st < 2 ^ 64"
  shows "mi_arena_add arena st = (False, st)"
  using assms(1) atomic_addu_subu [OF assms(2)]
  by (simp add: mi_arena_add_def Let_def mi_atomic_addu_def)

lemma arena_add_room:
  assumes "mi_arena_count st < MI_MAX_ARENAS"
  shows "mi_arena_add arena st =
     (True, st\<lparr>mi_arena_count := mi_arena_count st + 1,
              mi_arenas := (mi_arenas st)[mi_arena_count st := Some arena]\<rparr>)"
  using assms
  by (simp add: mi_arena_add_def mi_atomic_addu_def Let_def MI_MAX_ARENAS_def)

text \<open>
  C8. Registry publish: \<^verbatim>\<open>mi_arena_add\<close> takes the counter as the slot index and increments
  it. When the index is at or beyond \<^verbatim>\<open>MI_MAX_ARENAS\<close> it puts the counter back and answers
  false, and the state is as before. Otherwise it writes the descriptor into that slot,
  leaves every other slot as it was and answers true. On a registry in order the result
  is in order again and every slot that was published keeps its descriptor.
\<close>

theorem arena_add_publish:
  assumes "length (mi_arenas st) = MI_MAX_ARENAS" and "mi_arena_count st < 2 ^ 64"
  shows "(MI_MAX_ARENAS \<le> mi_arena_count st \<longrightarrow> mi_arena_add arena st = (False, st))
    \<and> (mi_arena_count st < MI_MAX_ARENAS \<longrightarrow>
         fst (mi_arena_add arena st) = True
         \<and> mi_arena_count (snd (mi_arena_add arena st)) = mi_arena_count st + 1
         \<and> mi_arenas (snd (mi_arena_add arena st)) ! mi_arena_count st = Some arena
         \<and> (\<forall>j < MI_MAX_ARENAS. j \<noteq> mi_arena_count st \<longrightarrow>
               mi_arenas (snd (mi_arena_add arena st)) ! j = mi_arenas st ! j))
    \<and> (registry_ok st \<longrightarrow>
         registry_ok (snd (mi_arena_add arena st))
         \<and> (\<forall>j < MI_MAX_ARENAS. mi_arenas st ! j \<noteq> None \<longrightarrow>
               mi_arenas (snd (mi_arena_add arena st)) ! j = mi_arenas st ! j))"
proof (intro conjI impI)
  assume "MI_MAX_ARENAS \<le> mi_arena_count st"
  with assms(2) show "mi_arena_add arena st = (False, st)"
    by (simp add: arena_add_full)
next
  assume lt: "mi_arena_count st < MI_MAX_ARENAS"
  note r = arena_add_room [OF lt, of arena]
  show "fst (mi_arena_add arena st) = True" by (simp add: r)
  show "mi_arena_count (snd (mi_arena_add arena st)) = mi_arena_count st + 1" by (simp add: r)
  show "mi_arenas (snd (mi_arena_add arena st)) ! mi_arena_count st = Some arena"
    using lt assms(1) by (simp add: r)
  show "\<forall>j < MI_MAX_ARENAS. j \<noteq> mi_arena_count st \<longrightarrow>
               mi_arenas (snd (mi_arena_add arena st)) ! j = mi_arenas st ! j"
    by (simp add: r)
next
  assume ok: "registry_ok st"
  show "registry_ok (snd (mi_arena_add arena st))"
  proof (cases "mi_arena_count st < MI_MAX_ARENAS")
    case True
    with ok show ?thesis
      unfolding arena_add_room [OF True] registry_ok_def
      by (auto simp add: nth_list_update less_Suc_eq)
  next
    case False
    with assms(2) ok show ?thesis
      by (simp add: arena_add_full)
  qed
  show "\<forall>j < MI_MAX_ARENAS. mi_arenas st ! j \<noteq> None \<longrightarrow>
               mi_arenas (snd (mi_arena_add arena st)) ! j = mi_arenas st ! j"
  proof (cases "mi_arena_count st < MI_MAX_ARENAS")
    case True
    with ok show ?thesis
      unfolding arena_add_room [OF True] registry_ok_def
      by (auto simp add: nth_list_update)
  next
    case False
    with assms(2) show ?thesis
      by (simp add: arena_add_full)
  qed
qed

lemma demo_state_ok: "registry_ok demo_state"
  by (simp add: registry_ok_def demo_state_def MI_MAX_ARENAS_def nth_Cons')

theorem arena_add_publish_witness:
  "fst (mi_arena_add demo_arena demo_state) = True
   \<and> mi_arena_count (snd (mi_arena_add demo_arena demo_state)) = 2
   \<and> mi_arenas (snd (mi_arena_add demo_arena demo_state)) ! 1 = Some demo_arena
   \<and> registry_ok (snd (mi_arena_add demo_arena demo_state))
   \<and> mi_arenas (snd (mi_arena_add demo_arena demo_state)) ! 0 = Some demo_arena
   \<and> mi_arena_add demo_arena (demo_state\<lparr>mi_arena_count := 64\<rparr>)
       = (False, demo_state\<lparr>mi_arena_count := 64\<rparr>)"
proof -
  have len: "length (mi_arenas demo_state) = MI_MAX_ARENAS"
    by (simp add: demo_state_def MI_MAX_ARENAS_def)
  have cnt: "mi_arena_count demo_state = 1"
    by (simp add: demo_state_def)
  have s0: "mi_arenas demo_state ! 0 = Some demo_arena"
    by (simp add: demo_state_def)
  have a: "fst (mi_arena_add demo_arena demo_state) = True
   \<and> mi_arena_count (snd (mi_arena_add demo_arena demo_state)) = 2
   \<and> mi_arenas (snd (mi_arena_add demo_arena demo_state)) ! 1 = Some demo_arena
   \<and> registry_ok (snd (mi_arena_add demo_arena demo_state))
   \<and> mi_arenas (snd (mi_arena_add demo_arena demo_state)) ! 0 = Some demo_arena"
    using arena_add_publish [of demo_state demo_arena] len demo_state_ok s0
    by (simp add: cnt MI_MAX_ARENAS_def)
  have b: "mi_arena_add demo_arena (demo_state\<lparr>mi_arena_count := 64\<rparr>)
       = (False, demo_state\<lparr>mi_arena_count := 64\<rparr>)"
    using arena_add_publish [of "demo_state\<lparr>mi_arena_count := 64\<rparr>" demo_arena] len
    by (simp add: MI_MAX_ARENAS_def)
  from a b show ?thesis by simp
qed

section \<open>Properties of the huge page reservation\<close>

text \<open>
  C10. Rollback when the descriptor cannot be allocated: when
  \<^verbatim>\<open>mi_reserve_huge_os_pages_at\<close> has reserved a non-zero number of huge pages and the OS
  then answers \<open>NULL\<close> for the storage of the descriptor, the function gives the huge
  pages back with \<^verbatim>\<open>_mi_os_free_huge_pages\<close> and answers \<open>ENOMEM\<close>; \<^verbatim>\<open>mi_arenas\<close> and
  \<^verbatim>\<open>mi_arena_count\<close> are as before, only the log of calls has grown.
\<close>

theorem reserve_at_descriptor_alloc_fails:
  assumes "pages \<noteq> 0"
    and "nnode < 0 \<or> os_numa_node_count os \<noteq> 0"
    and "nn = (if nnode < 0 then - 1 else c_rem nnode (os_numa_node_count os))"
    and "os_alloc_huge_os_pages os (os_log st) pages nn timeout_msecs = (p, pages_reserved, hsize)"
    and "p \<noteq> NULL" and "pages_reserved \<noteq> 0"
    and "asize = sizeof_mi_arena_t
           + 2 * ((mi_block_count_of_size hsize + MI_BITMAP_FIELD_BITS - 1) div MI_BITMAP_FIELD_BITS)
             * sizeof_mi_bitmap_field_t"
    and "os_alloc os (os_log st @ [Ev_alloc_huge_os_pages pages nn timeout_msecs, Ev_verbose_message])
           asize = NULL"
  shows "mi_reserve_huge_os_pages_at os st pages nnode timeout_msecs =
     Inr (ENOMEM, st\<lparr>os_log := os_log st @
            [Ev_alloc_huge_os_pages pages nn timeout_msecs, Ev_verbose_message,
             Ev_os_alloc asize, Ev_free_huge_pages p hsize]\<rparr>)"
proof -
  have nn: "(if (if nnode < - 1 then - 1 else nnode) \<ge> 0
             then c_rem (if nnode < - 1 then - 1 else nnode) (os_numa_node_count os)
             else (if nnode < - 1 then - 1 else nnode)) = nn"
    using assms(3) by auto
  have trap: "\<not> ((if nnode < - 1 then - 1 else nnode) \<ge> 0 \<and> os_numa_node_count os = 0)"
    using assms(2) by auto
  show ?thesis
    unfolding assms(7) mi_reserve_huge_os_pages_at_def Let_def nn
    using assms(1,4,5,6) assms(8) [unfolded assms(7)] trap
    by (simp add: log_event_def)
qed

lemma block_count_1GiB: "mi_block_count_of_size 1073741824 = 32"
  by (simp add: mi_block_count_of_size_def mi_divide_up_def MI_ARENA_BLOCK_SIZE_def
        MI_SEGMENT_ALIGN_def MI_SEGMENT_SIZE_def)

theorem reserve_at_descriptor_alloc_fails_witness:
  "mi_reserve_huge_os_pages_at demo_os_no_storage empty_state 1 0 100 =
     Inr (ENOMEM, empty_state\<lparr>os_log :=
            [Ev_alloc_huge_os_pages 1 0 100, Ev_verbose_message,
             Ev_os_alloc 72, Ev_free_huge_pages 1073741824 1073741824]\<rparr>)"
  using reserve_at_descriptor_alloc_fails [of 1 0 demo_os_no_storage 0 empty_state 100
      1073741824 1 1073741824 72]
  by (simp add: demo_os_no_storage_def demo_os_def empty_state_def c_rem_def NULL_def
      block_count_1GiB sizeof_mi_arena_t_def sizeof_mi_bitmap_field_t_def MI_BITMAP_FIELD_BITS_def)

section \<open>Properties of the block allocator\<close>

lemma upt_split_first: "a < b \<Longrightarrow> map f [0 ..< b - a] = f 0 # map (\<lambda>v. f (Suc v)) [0 ..< b - Suc a]"
proof -
  assume "a < b"
  then have "[0 ..< b - a] = 0 # map Suc [0 ..< b - Suc a]"
    by (metis Suc_diff_Suc map_Suc_upt upt_conv_Cons zero_less_diff)
  then show ?thesis by (simp add: comp_def)
qed

lemma wrap_is_mod:
  assumes "(w :: nat) < n"
  shows "(if w + 1 \<ge> n then 0 else w + 1) = (w + 1) mod n"
proof (cases "w + 1 = n")
  case True
  then show ?thesis by simp
next
  case False
  with assms have "w + 1 < n" by simp
  then show ?thesis by simp
qed

lemma alloc_loop_is_scan:
  "mi_arena_alloc_loop arena n blocks visited idx =
     claim_first_in_order arena blocks
       (map (\<lambda>v. ((if idx \<ge> n then 0 else idx) + v) mod n) [0 ..< n - visited])"
proof (induction arena n blocks visited idx rule: mi_arena_alloc_loop.induct)
  case (1 arena fcount blocks visited idx)
  let ?w = "if idx \<ge> fcount then 0 else idx"
  show ?case
  proof (cases "visited < fcount")
    case False
    then show ?thesis by (subst mi_arena_alloc_loop.simps) simp
  next
    case True
    then have w: "?w < fcount" by simp
    have next_w: "(if ?w + 1 \<ge> fcount then 0 else ?w + 1) = (?w + 1) mod fcount"
      using w by (rule wrap_is_mod)
    have step: "map (\<lambda>v. (?w + v) mod fcount) [0 ..< fcount - visited]
        = ?w # map (\<lambda>v. ((?w + 1) mod fcount + v) mod fcount) [0 ..< fcount - Suc visited]"
      using w by (simp add: upt_split_first [OF True] mod_add_left_eq)
    show ?thesis
    proof (cases "mi_bitmap_try_claim_field (blocks_map arena) ?w blocks")
      case None
      have "mi_arena_alloc_loop arena fcount blocks visited idx
          = mi_arena_alloc_loop arena fcount blocks (visited + 1) (?w + 1)"
        using True None by (subst mi_arena_alloc_loop.simps) (simp add: Let_def)
      also have "\<dots> = claim_first_in_order arena blocks
          (map (\<lambda>v. ((?w + 1) mod fcount + v) mod fcount) [0 ..< fcount - (visited + 1)])"
        using "1.IH" [OF True refl None] by (simp only: next_w)
      finally show ?thesis
        using None by (simp only: step) simp
    next
      case (Some r)
      then show ?thesis
        using True by (subst mi_arena_alloc_loop.simps) (simp add: step Let_def split: prod.splits)
    qed
  qed
qed

lemma mod_shift_inj:
  fixes a b n w :: nat
  assumes "a \<le> b" and "b < n" and "(w + a) mod n = (w + b) mod n"
  shows "a = b"
proof (rule ccontr)
  assume "a \<noteq> b"
  with assms(1) have pos: "0 < b - a" by arith
  have less: "b - a < n" using assms(2) by arith
  have le: "w + a \<le> w + b" using assms(1) by arith
  have "(w + b) mod n = (w + a) mod n" using assms(3) by (rule sym)
  then have "n dvd (w + b) - (w + a)"
    by (rule iffD1 [OF mod_eq_dvd_iff_nat [OF le]])
  moreover have "(w + b) - (w + a) = b - a" by arith
  ultimately have "n dvd b - a" by (simp only:)
  with pos less show False
    by (simp only: nat_dvd_not_less)
qed

lemma scan_order_inj:
  "inj_on (\<lambda>v. (w + v) mod n) {0 ..< n :: nat}"
proof (rule inj_onI)
  fix x y
  assume x: "x \<in> {0 ..< n}" and y: "y \<in> {0 ..< n}"
    and eq: "(w + x) mod n = (w + y) mod n"
  from x y have xn: "x < n" and yn: "y < n" by simp_all
  show "x = y"
  proof (cases "x \<le> y")
    case True
    then show ?thesis using yn eq by (rule mod_shift_inj)
  next
    case False
    then have "y \<le> x" by arith
    then have "y = x" using xn eq [symmetric] by (rule mod_shift_inj)
    then show ?thesis by (rule sym)
  qed
qed


lemma scan_order_set: "set (mi_arena_scan_order fcount sidx) = {0 ..< fcount}"
proof -
  let ?f = "\<lambda>v. ((if sidx \<ge> fcount then 0 else sidx) + v) mod fcount"
  have "?f ` {0 ..< fcount} \<subseteq> {0 ..< fcount}"
    by auto
  then have "?f ` {0 ..< fcount} = {0 ..< fcount}"
    by (intro endo_inj_surj scan_order_inj) simp_all
  then show ?thesis
    by (simp add: mi_arena_scan_order_def)
qed

lemma claim_first_None:
  "claim_first_in_order arena blocks xs = None \<longleftrightarrow>
     (\<forall>i \<in> set xs. mi_bitmap_try_claim_field (blocks_map arena) i blocks = None)"
  by (induction xs) (auto split: option.splits)

lemma claim_first_Some:
  "claim_first_in_order arena blocks xs = Some (bi, a') \<Longrightarrow>
     \<exists>k < length xs.
        (\<forall>j < k. mi_bitmap_try_claim_field (blocks_map arena) (xs ! j) blocks = None)
        \<and> mi_bitmap_try_claim_field (blocks_map arena) (xs ! k) blocks = Some (blocks_map a', bi)
        \<and> a' = arena\<lparr>blocks_map := blocks_map a', search_idx := xs ! k\<rparr>"
proof (induction xs)
  case Nil
  then show ?case by simp
next
  case (Cons i rest)
  show ?case
  proof (cases "mi_bitmap_try_claim_field (blocks_map arena) i blocks")
    case None
    with Cons.prems have "claim_first_in_order arena blocks rest = Some (bi, a')" by simp
    from Cons.IH [OF this] obtain k where k: "k < length rest"
      "\<forall>j < k. mi_bitmap_try_claim_field (blocks_map arena) (rest ! j) blocks = None"
      "mi_bitmap_try_claim_field (blocks_map arena) (rest ! k) blocks = Some (blocks_map a', bi)"
      "a' = arena\<lparr>blocks_map := blocks_map a', search_idx := rest ! k\<rparr>"
      by blast
    have "\<forall>j < Suc k. mi_bitmap_try_claim_field (blocks_map arena) ((i # rest) ! j) blocks = None"
      using None k(2) by (simp add: nth_Cons' less_Suc_eq_0_disj) auto
    with k show ?thesis
      by (intro exI [of _ "Suc k"]) simp
  next
    case (Some r)
    with Cons.prems show ?thesis
      by (intro exI [of _ 0]) (auto split: prod.splits)
  qed
qed




section \<open>Properties of the arena construction\<close>

lemma try_claim_field_Some:
  assumes "mi_bitmap_try_claim_field bitmap idx n = Some (bitmap', bi)"
  obtains b where "bi = idx * 64 + b" and "b + n \<le> 64"
    and "(bitmap ! idx) AND mi_bitmap_mask n b = 0"
    and "bitmap' = bitmap[idx := (bitmap ! idx) OR mi_bitmap_mask n b]"
    and "n = 0 \<longrightarrow> b = 0"
proof -
  let ?P = "\<lambda>bitidx. (bitmap ! idx) AND mi_bitmap_mask n bitidx = 0"
  from assms obtain b where f: "List.find ?P [0 ..< 64 + 1 - n] = Some b"
    and r: "bitmap' = bitmap[idx := (bitmap ! idx) OR mi_bitmap_mask n b]"
      "bi = idx * 64 + b"
    by (auto simp add: mi_bitmap_try_claim_field_def mi_bitmap_index_create_def
        MI_BITMAP_FIELD_BITS_def split: option.splits)
  from f obtain k where k: "k < length [0 ..< 64 + 1 - n]" "?P ([0 ..< 64 + 1 - n] ! k)"
    "b = [0 ..< 64 + 1 - n] ! k" "\<forall>j<k. \<not> ?P ([0 ..< 64 + 1 - n] ! j)"
    unfolding find_Some_iff by blast
  from k(1,3) have bk: "b = k" and kn: "k < 65 - n" by simp_all
  have zero: "n = 0 \<longrightarrow> b = 0"
  proof
    assume n: "n = 0"
    show "b = 0"
    proof (rule ccontr)
      assume "b \<noteq> 0"
      with bk have "0 < k" by simp
      with k(4) have "\<not> ?P ([0 ..< 64 + 1 - n] ! 0)" by blast
      then show False using n by (simp add: mi_bitmap_mask_def)
    qed
  qed
  show ?thesis
  proof (rule that [of b])
    show "bi = idx * 64 + b" by (rule r(2))
    show "b + n \<le> 64" using bk kn by arith
    show "(bitmap ! idx) AND mi_bitmap_mask n b = 0" using k(2,3) by simp
    show "bitmap' = bitmap[idx := (bitmap ! idx) OR mi_bitmap_mask n b]" by (rule r(1))
    show "n = 0 \<longrightarrow> b = 0" by (rule zero)
  qed
qed

lemma arena_alloc_Some_field:
  assumes "mi_arena_alloc a n = Some (bi, a')"
  obtains idx where "idx < field_count a"
    and "mi_bitmap_try_claim_field (blocks_map a) idx n = Some (blocks_map a', bi)"
    and "a' = a\<lparr>blocks_map := blocks_map a', search_idx := idx\<rparr>"
proof -
  let ?order = "mi_arena_scan_order (field_count a) (search_idx a)"
  have "mi_arena_alloc a n = claim_first_in_order a n ?order"
    unfolding mi_arena_alloc_def alloc_loop_is_scan mi_arena_scan_order_def by simp
  with assms have "claim_first_in_order a n ?order = Some (bi, a')" by simp
  from claim_first_Some [OF this] obtain k where k: "k < length ?order"
    "mi_bitmap_try_claim_field (blocks_map a) (?order ! k) n = Some (blocks_map a', bi)"
    "a' = a\<lparr>blocks_map := blocks_map a', search_idx := ?order ! k\<rparr>"
    by blast
  from k(1) have "?order ! k \<in> set ?order" by (rule nth_mem)
  then have "?order ! k < field_count a"
    by (simp only: scan_order_set atLeastLessThan_iff)
  from this k(2,3) show ?thesis by (rule that)
qed

lemma claim_in_range:
  assumes ok: "arena_bitmap_ok a"
    and idx: "idx < field_count a"
    and tc: "mi_bitmap_try_claim_field (blocks_map a) idx n = Some (bm', bi)"
  shows "bi + n \<le> block_count a"
proof -
  from tc obtain b where b: "bi = idx * 64 + b" "b + n \<le> 64"
    "(blocks_map a ! idx) AND mi_bitmap_mask n b = 0" "n = 0 \<longrightarrow> b = 0"
    by (rule try_claim_field_Some)
  from ok have lo: "block_count a \<le> field_count a * 64"
    and hi: "field_count a * 64 < block_count a + 64"
    and tr: "\<forall>i \<in> {block_count a ..< field_count a * 64}.
               bit (blocks_map a ! (i div 64)) (i mod 64)"
    by (simp_all add: arena_bitmap_ok_def trailing_bits_claimed_def MI_BITMAP_FIELD_BITS_def)
  show ?thesis
  proof (rule ccontr)
    assume "\<not> bi + n \<le> block_count a"
    then have over: "block_count a < idx * 64 + b + n" using b(1) by simp
    have n: "n \<noteq> 0"
    proof
      assume "n = 0"
      with b(4) over have "block_count a < idx * 64" by simp
      moreover have "idx * 64 + 64 \<le> field_count a * 64" using idx by simp
      ultimately show False using hi by simp
    qed
    define i where "i = max (idx * 64 + b) (block_count a)"
    have i1: "idx * 64 + b \<le> i" and i2: "block_count a \<le> i" by (simp_all add: i_def)
    have i3: "i < idx * 64 + b + n" using over n by (simp add: i_def)
    have i4: "i < idx * 64 + 64" using i3 b(2) by simp
    have "idx * 64 + 64 \<le> field_count a * 64" using idx by simp
    with i4 have i5: "i < field_count a * 64" by simp
    have "idx * 64 \<le> i" using i1 by simp
    with i4 have d: "i div 64 = idx"
      by (metis (no_types, lifting) add.commute div_nat_eqI mult.commute mult_Suc_right)
    have m: "i mod 64 = i - idx * 64"
      using d by (metis add_diff_cancel_left' mult.commute mult_div_mod_eq)
    from tr i2 i5 have "bit (blocks_map a ! (i div 64)) (i mod 64)" by simp
    then have set: "bit (blocks_map a ! idx) (i - idx * 64)" by (simp only: d m)
    have "bit (mi_bitmap_mask n b) (i - idx * 64)"
      using i1 i3 i4 by (simp add: mask_bits) arith
    with set have "bit ((blocks_map a ! idx) AND mi_bitmap_mask n b) (i - idx * 64)"
      by (simp only: bit_and_iff)
    then show False by (simp only: b(3)) simp
  qed
qed

lemma claim_keeps_ok:
  assumes ok: "arena_bitmap_ok a"
    and tc: "mi_bitmap_try_claim_field (blocks_map a) idx n = Some (bm', bi)"
  shows "arena_bitmap_ok (a\<lparr>blocks_map := bm', search_idx := s\<rparr>)"
proof -
  from tc obtain b where bm': "bm' = (blocks_map a)[idx := (blocks_map a ! idx) OR mi_bitmap_mask n b]"
    by (rule try_claim_field_Some)
  have keep: "bit (bm' ! j) k" if "bit (blocks_map a ! j) k" and "j < length (blocks_map a)" for j k
    using that unfolding bm' by (cases "j = idx") (simp_all add: bit_or_iff)
  have len: "length bm' = length (blocks_map a)"
    unfolding bm' by simp
  from ok have l: "length (blocks_map a) = field_count a"
    and tr: "\<forall>i \<in> {block_count a ..< field_count a * 64}.
               bit (blocks_map a ! (i div 64)) (i mod 64)"
    by (simp_all add: arena_bitmap_ok_def trailing_bits_claimed_def MI_BITMAP_FIELD_BITS_def)
  have "\<forall>i \<in> {block_count a ..< field_count a * 64}. bit (bm' ! (i div 64)) (i mod 64)"
  proof
    fix i assume i: "i \<in> {block_count a ..< field_count a * 64}"
    then have "i div 64 < length (blocks_map a)"
      by (simp add: l less_mult_imp_div_less)
    with tr i show "bit (bm' ! (i div 64)) (i mod 64)"
      by (intro keep) simp_all
  qed
  with ok len show ?thesis
    by (simp add: arena_bitmap_ok_def trailing_bits_claimed_def MI_BITMAP_FIELD_BITS_def)
qed

lemma unclaim_keeps_ok:
  assumes ok: "arena_bitmap_ok a" and inside: "bi + n \<le> block_count a"
  shows "arena_bitmap_ok
     (a\<lparr>blocks_map := fst (mi_bitmap_unclaim (blocks_map a) (field_count a) n bi)\<rparr>)"
proof -
  let ?idx = "bi div 64" and ?b = "bi mod 64"
  let ?bm' = "(blocks_map a)[?idx := (blocks_map a ! ?idx) AND NOT (mi_bitmap_mask n ?b)]"
  have bm': "fst (mi_bitmap_unclaim (blocks_map a) (field_count a) n bi) = ?bm'"
    by (simp add: mi_bitmap_unclaim_def Let_def mi_bitmap_index_field_def
        mi_bitmap_index_bit_in_field_def MI_BITMAP_FIELD_BITS_def)
  from ok have l: "length (blocks_map a) = field_count a"
    and tr: "\<forall>i \<in> {block_count a ..< field_count a * 64}.
               bit (blocks_map a ! (i div 64)) (i mod 64)"
    by (simp_all add: arena_bitmap_ok_def trailing_bits_claimed_def MI_BITMAP_FIELD_BITS_def)
  have "\<forall>i \<in> {block_count a ..< field_count a * 64}. bit (?bm' ! (i div 64)) (i mod 64)"
  proof
    fix i assume i: "i \<in> {block_count a ..< field_count a * 64}"
    then have len: "i div 64 < length (blocks_map a)"
      by (simp add: l less_mult_imp_div_less)
    from tr i have set: "bit (blocks_map a ! (i div 64)) (i mod 64)" by blast
    show "bit (?bm' ! (i div 64)) (i mod 64)"
    proof (cases "i div 64 = ?idx")
      case False
      with set show ?thesis by simp
    next
      case True
      have "bi + n \<le> i" using inside i by simp
      moreover have "i = ?idx * 64 + i mod 64" using True by (metis div_mult_mod_eq)
      moreover have "bi = ?idx * 64 + ?b" by simp
      ultimately have "?b + n \<le> i mod 64" by arith
      then have "\<not> bit (mi_bitmap_mask n ?b) (i mod 64)"
        by (simp add: mask_bits)
      with set len True show ?thesis
        by (simp add: bit_and_iff bit_not_iff)
    qed
  qed
  with ok show ?thesis
    unfolding bm' by (simp add: arena_bitmap_ok_def trailing_bits_claimed_def MI_BITMAP_FIELD_BITS_def)
qed

lemma run_in_range:
  assumes "arena_bitmap_ok a" and "frees_inside (block_count a) ops"
  shows "\<forall>(bi, n) \<in> set (mi_arena_run a ops). bi + n \<le> block_count a"
  using assms
proof (induction a ops rule: mi_arena_run.induct)
  case (1 a)
  then show ?case by simp
next
  case (2 a n ops)
  from "2.prems" have fr: "frees_inside (block_count a) ops" by simp
  show ?case
  proof (cases "mi_arena_alloc a n")
    case None
    with "2.IH"(1) "2.prems"(1) fr show ?thesis by simp
  next
    case (Some r)
    obtain bi a' where r: "r = (bi, a')" by (cases r)
    with Some have al: "mi_arena_alloc a n = Some (bi, a')" by simp
    from al obtain idx where idx: "idx < field_count a"
      and tc: "mi_bitmap_try_claim_field (blocks_map a) idx n = Some (blocks_map a', bi)"
      and a': "a' = a\<lparr>blocks_map := blocks_map a', search_idx := idx\<rparr>"
      by (rule arena_alloc_Some_field)
    have here: "bi + n \<le> block_count a"
      using "2.prems"(1) idx tc by (rule claim_in_range)
    have "arena_bitmap_ok (a\<lparr>blocks_map := blocks_map a', search_idx := idx\<rparr>)"
      using "2.prems"(1) tc by (rule claim_keeps_ok)
    with a' have ok': "arena_bitmap_ok a'" by simp
    have bc: "block_count a' = block_count a"
      by (subst a') simp
    from "2.IH"(2) [OF al refl ok'] fr bc
    have "\<forall>(bi, n) \<in> set (mi_arena_run a' ops). bi + n \<le> block_count a"
      by simp
    with here al show ?thesis by simp
  qed
next
  case (3 a bitmap_idx n ops)
  let ?a' = "a\<lparr>blocks_map := fst (mi_bitmap_unclaim (blocks_map a) (field_count a) n bitmap_idx)\<rparr>"
  from "3.prems" have inside: "bitmap_idx + n \<le> block_count a"
    and fr: "frees_inside (block_count a) ops" by simp_all
  from "3.prems"(1) inside have "arena_bitmap_ok ?a'" by (rule unclaim_keeps_ok)
  with "3.IH" fr show ?case by simp
qed

lemma fields_of_blocks:
  fixes bcount :: nat
  shows "bcount \<le> ((bcount + 64 - 1) div 64) * 64"
    and "((bcount + 64 - 1) div 64) * 64 < bcount + 64"
  by arith+

lemma built_bitmap_ok:
  fixes bcount :: nat
  assumes nf_def: "nf = (bcount + MI_BITMAP_FIELD_BITS - 1) div MI_BITMAP_FIELD_BITS"
    and post_def: "post = nf * MI_BITMAP_FIELD_BITS - bcount"
    and bm_def: "bm = (if post > 0
      then fst (mi_bitmap_claim (replicate nf 0) nf post
                 (mi_bitmap_index_create (nf - 1) (MI_BITMAP_FIELD_BITS - post)))
      else replicate nf 0)"
  shows "length bm = nf
    \<and> (\<forall>i \<in> {bcount ..< nf * MI_BITMAP_FIELD_BITS}.
           bit (bm ! (i div MI_BITMAP_FIELD_BITS)) (i mod MI_BITMAP_FIELD_BITS))"
proof -
  have f: "nf = (bcount + 64 - 1) div 64"
    using nf_def by (simp add: MI_BITMAP_FIELD_BITS_def)
  have lo: "bcount \<le> nf * 64" and hi: "nf * 64 < bcount + 64"
    unfolding f by (rule fields_of_blocks)+
  have p: "post = nf * 64 - bcount"
    using post_def by (simp add: MI_BITMAP_FIELD_BITS_def)
  have len: "length bm = nf"
    using bm_def by (simp add: mi_bitmap_claim_def Let_def)
  have "\<forall>i \<in> {bcount ..< nf * MI_BITMAP_FIELD_BITS}.
           bit (bm ! (i div MI_BITMAP_FIELD_BITS)) (i mod MI_BITMAP_FIELD_BITS)"
  proof
    fix i assume "i \<in> {bcount ..< nf * MI_BITMAP_FIELD_BITS}"
    then have i: "bcount \<le> i" "i < nf * 64"
      by (simp_all add: MI_BITMAP_FIELD_BITS_def)
    then have pos: "post > 0" using p by simp
    have fpos: "nf > 0" using i by (cases nf) simp_all
    have pidx: "mi_bitmap_index_create (nf - 1) (MI_BITMAP_FIELD_BITS - post) = bcount"
      using lo hi fpos unfolding p mi_bitmap_index_create_def MI_BITMAP_FIELD_BITS_def
      by (cases nf) simp_all
    have "(nf - 1) * 64 \<le> bcount" "bcount < (nf - 1) * 64 + 64"
      using lo hi i fpos by (cases nf; simp)+
    then have bd: "bcount div 64 = nf - 1"
      by (metis (no_types, lifting) add.commute div_nat_eqI mult.commute mult_Suc_right)
    have "(nf - 1) * 64 \<le> i" "i < (nf - 1) * 64 + 64"
      using lo hi i fpos by (cases nf; simp)+
    then have idv: "i div 64 = nf - 1"
      by (metis (no_types, lifting) add.commute div_nat_eqI mult.commute mult_Suc_right)
    have bmod: "bcount mod 64 = bcount - (nf - 1) * 64"
      using bd by (metis add_diff_cancel_left' mult.commute mult_div_mod_eq)
    have imod: "i mod 64 = i - (nf - 1) * 64"
      using idv by (metis add_diff_cancel_left' mult.commute mult_div_mod_eq)
    have pidx': "mi_bitmap_index_create (nf - Suc 0) (64 - post) = bcount"
      using pidx by (simp add: MI_BITMAP_FIELD_BITS_def)
    have bm: "bm = (replicate nf 0)[nf - 1 := mi_bitmap_mask post (bcount mod 64)]"
      using pos fpos bm_def
      by (simp add: pidx' mi_bitmap_claim_def Let_def mi_bitmap_index_field_def
          mi_bitmap_index_bit_in_field_def MI_BITMAP_FIELD_BITS_def bd)
    have "bit (mi_bitmap_mask post (bcount mod 64)) (i mod 64)"
      unfolding mask_bits bmod imod p using i lo hi fpos \<open>(nf - 1) * 64 \<le> bcount\<close>
      by (cases nf) (simp, simp, arith)
    then show "bit (bm ! (i div MI_BITMAP_FIELD_BITS)) (i mod MI_BITMAP_FIELD_BITS)"
      using fpos by (simp add: bm idv MI_BITMAP_FIELD_BITS_def)
  qed
  with len show ?thesis by (rule conjI)
qed

lemma arena_add_keeps_log: "os_log (snd (mi_arena_add a s)) = os_log s"
  by (simp add: mi_arena_add_def Let_def)

lemma reserve_at_success_form:
  assumes "mi_reserve_huge_os_pages_at os st pages nnode timeout_msecs = Inr (0, st')"
    and "pages \<noteq> 0"
  shows "\<exists>p hsize nn evs.
     st' = snd (mi_arena_add
       \<lparr>start = p, block_count = mi_block_count_of_size hsize,
        field_count = (mi_block_count_of_size hsize + MI_BITMAP_FIELD_BITS - 1) div MI_BITMAP_FIELD_BITS,
        numa_node = nn, is_zero_init = True, is_large = True, search_idx = 0,
        blocks_dirty =
          replicate (1 + 2 * ((mi_block_count_of_size hsize + MI_BITMAP_FIELD_BITS - 1)
                                div MI_BITMAP_FIELD_BITS) - mi_block_count_of_size hsize) 0,
        blocks_map =
          (if ((mi_block_count_of_size hsize + MI_BITMAP_FIELD_BITS - 1) div MI_BITMAP_FIELD_BITS)
                * MI_BITMAP_FIELD_BITS - mi_block_count_of_size hsize > 0
           then fst (mi_bitmap_claim
                  (replicate ((mi_block_count_of_size hsize + MI_BITMAP_FIELD_BITS - 1)
                                div MI_BITMAP_FIELD_BITS) 0)
                  ((mi_block_count_of_size hsize + MI_BITMAP_FIELD_BITS - 1) div MI_BITMAP_FIELD_BITS)
                  (((mi_block_count_of_size hsize + MI_BITMAP_FIELD_BITS - 1) div MI_BITMAP_FIELD_BITS)
                     * MI_BITMAP_FIELD_BITS - mi_block_count_of_size hsize)
                  (mi_bitmap_index_create
                     ((mi_block_count_of_size hsize + MI_BITMAP_FIELD_BITS - 1)
                        div MI_BITMAP_FIELD_BITS - 1)
                     (MI_BITMAP_FIELD_BITS -
                        (((mi_block_count_of_size hsize + MI_BITMAP_FIELD_BITS - 1)
                            div MI_BITMAP_FIELD_BITS)
                          * MI_BITMAP_FIELD_BITS - mi_block_count_of_size hsize))))
           else replicate ((mi_block_count_of_size hsize + MI_BITMAP_FIELD_BITS - 1)
                             div MI_BITMAP_FIELD_BITS) 0)\<rparr>
       (st\<lparr>os_log := os_log st @ evs\<rparr>))"
  using assms unfolding mi_reserve_huge_os_pages_at_def Let_def log_event_def
  by (simp add: ENOMEM_def split: if_splits) blast+

text \<open>
  C7. Huge-page arena construction: after a reservation by \<^verbatim>\<open>mi_reserve_huge_os_pages_at\<close>
  that answers 0 for a non-zero page count, the state is the old one, with the log
  extended, after \<^verbatim>\<open>mi_arena_add\<close> of a descriptor with these properties: \<^verbatim>\<open>field_count\<close> is
  \<^verbatim>\<open>block_count\<close> divided by the bits of a field, rounded up; \<^verbatim>\<open>is_large\<close> and
  \<^verbatim>\<open>is_zero_init\<close> are true and \<^verbatim>\<open>search_idx\<close> is 0; the bits of the in-use bitmap from
  \<^verbatim>\<open>block_count\<close> to the end of the last field are claimed at creation; and in every
  sequence of allocations and frees that follows on the arena, as long as each free
  releases only blocks inside the arena (position plus count at most \<^verbatim>\<open>block_count\<close>),
  each allocation that succeeds lies inside the first \<^verbatim>\<open>block_count\<close> blocks.
  \<^verbatim>\<open>_mi_arena_free\<close> itself does not test that condition: it tests the field of the
  position only. With room in the registry the descriptor is in the slot of the old
  counter.
\<close>

theorem reserve_at_builds_arena:
  assumes "mi_reserve_huge_os_pages_at os st pages nnode timeout_msecs = Inr (0, st')"
    and "pages \<noteq> 0"
  shows "\<exists>arena.
      st' = snd (mi_arena_add arena (st\<lparr>os_log := os_log st'\<rparr>))
      \<and> (length (mi_arenas st) = MI_MAX_ARENAS \<and> mi_arena_count st < MI_MAX_ARENAS \<longrightarrow>
            mi_arenas st' ! mi_arena_count st = Some arena)
      \<and> block_count arena \<le> field_count arena * MI_BITMAP_FIELD_BITS
      \<and> field_count arena * MI_BITMAP_FIELD_BITS < block_count arena + MI_BITMAP_FIELD_BITS
      \<and> is_large arena \<and> is_zero_init arena \<and> search_idx arena = 0
      \<and> length (blocks_map arena) = field_count arena
      \<and> trailing_bits_claimed arena
      \<and> (\<forall>ops. frees_inside (block_count arena) ops \<longrightarrow>
             (\<forall>(bi, n) \<in> set (mi_arena_run arena ops). bi + n \<le> block_count arena))"
proof -
  from reserve_at_success_form [OF assms] obtain p hsize nn evs arena
    where st': "st' = snd (mi_arena_add arena (st\<lparr>os_log := os_log st @ evs\<rparr>))"
      and arena: "arena =
       \<lparr>start = p, block_count = mi_block_count_of_size hsize,
        field_count = (mi_block_count_of_size hsize + MI_BITMAP_FIELD_BITS - 1) div MI_BITMAP_FIELD_BITS,
        numa_node = nn, is_zero_init = True, is_large = True, search_idx = 0,
        blocks_dirty =
          replicate (1 + 2 * ((mi_block_count_of_size hsize + MI_BITMAP_FIELD_BITS - 1)
                                div MI_BITMAP_FIELD_BITS) - mi_block_count_of_size hsize) 0,
        blocks_map =
          (if ((mi_block_count_of_size hsize + MI_BITMAP_FIELD_BITS - 1) div MI_BITMAP_FIELD_BITS)
                * MI_BITMAP_FIELD_BITS - mi_block_count_of_size hsize > 0
           then fst (mi_bitmap_claim
                  (replicate ((mi_block_count_of_size hsize + MI_BITMAP_FIELD_BITS - 1)
                                div MI_BITMAP_FIELD_BITS) 0)
                  ((mi_block_count_of_size hsize + MI_BITMAP_FIELD_BITS - 1) div MI_BITMAP_FIELD_BITS)
                  (((mi_block_count_of_size hsize + MI_BITMAP_FIELD_BITS - 1) div MI_BITMAP_FIELD_BITS)
                     * MI_BITMAP_FIELD_BITS - mi_block_count_of_size hsize)
                  (mi_bitmap_index_create
                     ((mi_block_count_of_size hsize + MI_BITMAP_FIELD_BITS - 1)
                        div MI_BITMAP_FIELD_BITS - 1)
                     (MI_BITMAP_FIELD_BITS -
                        (((mi_block_count_of_size hsize + MI_BITMAP_FIELD_BITS - 1)
                            div MI_BITMAP_FIELD_BITS)
                          * MI_BITMAP_FIELD_BITS - mi_block_count_of_size hsize))))
           else replicate ((mi_block_count_of_size hsize + MI_BITMAP_FIELD_BITS - 1)
                             div MI_BITMAP_FIELD_BITS) 0)\<rparr>"
    by blast
  have bc: "block_count arena = mi_block_count_of_size hsize"
    and fc: "field_count arena
        = (mi_block_count_of_size hsize + MI_BITMAP_FIELD_BITS - 1) div MI_BITMAP_FIELD_BITS"
    and flags: "is_large arena" "is_zero_init arena" "search_idx arena = 0"
    by (simp_all add: arena)
  have bm: "blocks_map arena = (if field_count arena * MI_BITMAP_FIELD_BITS - block_count arena > 0
      then fst (mi_bitmap_claim (replicate (field_count arena) 0) (field_count arena)
                 (field_count arena * MI_BITMAP_FIELD_BITS - block_count arena)
                 (mi_bitmap_index_create (field_count arena - 1)
                    (MI_BITMAP_FIELD_BITS
                       - (field_count arena * MI_BITMAP_FIELD_BITS - block_count arena))))
      else replicate (field_count arena) 0)"
    unfolding bc fc by (simp add: arena)
  note built = built_bitmap_ok [OF fc [folded bc] refl bm]
  from built have len: "length (blocks_map arena) = field_count arena" by (rule conjunct1)
  from built have tr: "trailing_bits_claimed arena"
    unfolding trailing_bits_claimed_def by (rule conjunct2)
  have lo: "block_count arena \<le> field_count arena * MI_BITMAP_FIELD_BITS"
    and hi: "field_count arena * MI_BITMAP_FIELD_BITS < block_count arena + MI_BITMAP_FIELD_BITS"
    unfolding fc bc MI_BITMAP_FIELD_BITS_def by (rule fields_of_blocks)+
  from len lo hi tr have ok: "arena_bitmap_ok arena"
    by (simp add: arena_bitmap_ok_def)
  have log: "os_log st' = os_log st @ evs"
    unfolding st' by (simp add: arena_add_keeps_log)
  have 1: "st' = snd (mi_arena_add arena (st\<lparr>os_log := os_log st'\<rparr>))"
    unfolding log by (rule st')
  have 2: "length (mi_arenas st) = MI_MAX_ARENAS \<and> mi_arena_count st < MI_MAX_ARENAS \<longrightarrow>
            mi_arenas st' ! mi_arena_count st = Some arena"
    unfolding st' by (simp add: arena_add_room)
  have 3: "\<forall>ops. frees_inside (block_count arena) ops \<longrightarrow>
      (\<forall>(bi, n) \<in> set (mi_arena_run arena ops). bi + n \<le> block_count arena)"
    using run_in_range [OF ok] by blast
  from 1 2 lo hi flags len tr 3 show ?thesis
    by blast
qed

lemma claim_post_demo:
  "mi_bitmap_claim [0] k 32 32 = ([0xFFFFFFFF00000000], True)"
proof -
  have "mi_bitmap_claim [0] 0 32 32 = ([0xFFFFFFFF00000000], True)"
    by code_simp
  then show ?thesis
    by (simp add: mi_bitmap_claim_def)
qed

lemma replicate_64_None: "replicate 64 None = None # replicate 63 None"
  by (simp add: numeral_eq_Suc)

lemma reserve_at_demo:
  "mi_reserve_huge_os_pages_at demo_os empty_state 1 0 100 = Inr (0, demo_built_state)"
  by (simp add: mi_reserve_huge_os_pages_at_def Let_def demo_os_def empty_state_def c_rem_def
      NULL_def block_count_1GiB log_event_def sizeof_mi_arena_t_def sizeof_mi_bitmap_field_t_def
      MI_BITMAP_FIELD_BITS_def mi_bitmap_index_create_def claim_post_demo mi_arena_add_def
      mi_atomic_addu_def MI_MAX_ARENAS_def demo_built_state_def demo_built_arena_def
      replicate_64_None)

theorem reserve_at_builds_arena_witness:
  "mi_reserve_huge_os_pages_at demo_os empty_state 1 0 100 = Inr (0, demo_built_state)
   \<and> (\<exists>arena. mi_arenas demo_built_state ! 0 = Some arena
         \<and> block_count arena \<le> field_count arena * MI_BITMAP_FIELD_BITS
         \<and> field_count arena * MI_BITMAP_FIELD_BITS < block_count arena + MI_BITMAP_FIELD_BITS
         \<and> is_large arena \<and> is_zero_init arena \<and> search_idx arena = 0
         \<and> length (blocks_map arena) = field_count arena
         \<and> trailing_bits_claimed arena
         \<and> (\<forall>ops. frees_inside (block_count arena) ops \<longrightarrow>
             (\<forall>(bi, n) \<in> set (mi_arena_run arena ops). bi + n \<le> block_count arena)))"
proof -
  have n: "(1::nat) \<noteq> 0" by simp
  have room: "length (mi_arenas empty_state) = MI_MAX_ARENAS
      \<and> mi_arena_count empty_state < MI_MAX_ARENAS"
    by (simp add: empty_state_def MI_MAX_ARENAS_def)
  have c: "mi_arena_count empty_state = 0"
    by (simp add: empty_state_def)
  from reserve_at_builds_arena [OF reserve_at_demo n] room
  have "\<exists>arena. mi_arenas demo_built_state ! mi_arena_count empty_state = Some arena
         \<and> block_count arena \<le> field_count arena * MI_BITMAP_FIELD_BITS
         \<and> field_count arena * MI_BITMAP_FIELD_BITS < block_count arena + MI_BITMAP_FIELD_BITS
         \<and> is_large arena \<and> is_zero_init arena \<and> search_idx arena = 0
         \<and> length (blocks_map arena) = field_count arena
         \<and> trailing_bits_claimed arena
         \<and> (\<forall>ops. frees_inside (block_count arena) ops \<longrightarrow>
             (\<forall>(bi, n) \<in> set (mi_arena_run arena ops). bi + n \<le> block_count arena))"
    by blast
  with reserve_at_demo show ?thesis
    by (simp only: c)
qed

lemma arena_alloc_one_field:
  assumes "field_count a = 1" and "search_idx a = 0"
  shows "mi_arena_alloc a n =
     (case mi_bitmap_try_claim_field (blocks_map a) 0 n of
        Some (bitmap', bitmap_idx) \<Rightarrow>
          Some (bitmap_idx, a\<lparr>blocks_map := bitmap', search_idx := 0\<rparr>)
      | None \<Rightarrow> None)"
  unfolding mi_arena_alloc_def alloc_loop_is_scan using assms
  by (simp split: option.splits)

lemma try_claim_built:
  "mi_bitmap_try_claim_field [0xFFFFFFFF00000000] 0 32 = Some ([0xFFFFFFFFFFFFFFFF], 0)"
  "mi_bitmap_try_claim_field [0] 0 64 = Some ([0xFFFFFFFFFFFFFFFF], 0)"
  by code_simp+

lemma unclaim_whole_field:
  "mi_bitmap_unclaim [0xFFFFFFFFFFFFFFFF] k 64 0 = ([0], True)"
proof -
  have "mi_bitmap_unclaim [0xFFFFFFFFFFFFFFFF] 1 64 0 = ([0], True)"
    by code_simp
  then show ?thesis
    by (simp add: mi_bitmap_unclaim_def)
qed

lemma block_count_2GiB: "mi_block_count_of_size 2147483648 = 64"
  by (simp add: mi_block_count_of_size_def mi_divide_up_def MI_ARENA_BLOCK_SIZE_def
        MI_SEGMENT_ALIGN_def MI_SEGMENT_SIZE_def)

text \<open>
  C7, without the condition on the frees: the bits past \<^verbatim>\<open>block_count\<close> are handed out.
  The reservation of one huge page of 1GiB builds an arena of 32 blocks with the bits 32
  to 63 of its one field claimed. An allocation of 32 blocks takes the blocks 0 to 31.
  A free of 64 blocks at position 0 (\<^verbatim>\<open>_mi_arena_free\<close> with the start of the arena, a size
  of 2GiB and the memory id 1) passes the test of the field, finds all 64 bits set and
  clears them, the pre-claimed ones with the others. The next allocation of 64 blocks
  succeeds at position 0 and so covers the blocks 32 to 63, which the arena does not have.
\<close>

theorem reserve_at_trailing_bits_handed_out:
  "mi_reserve_huge_os_pages_at demo_os empty_state 1 0 100 = Inr (0, demo_built_state)
   \<and> mi_arenas demo_built_state ! 0 = Some demo_built_arena
   \<and> block_count demo_built_arena = 32
   \<and> mi_arena_run demo_built_arena [Op_alloc 32, Op_free 0 64, Op_alloc 64]
       = [(0, 32), (0, 64)]
   \<and> mi_arena_alloc demo_built_arena 32
       = Some (0, demo_built_arena\<lparr>blocks_map := [0xFFFFFFFFFFFFFFFF]\<rparr>)
   \<and> mi_arena_free demo_built_state_in_use 1073741824 2147483648 1
       = (Free_arena,
          demo_built_state\<lparr>mi_arenas :=
            Some (demo_built_arena\<lparr>blocks_map := [0]\<rparr>) # replicate 63 None\<rparr>)
   \<and> mi_arena_alloc (demo_built_arena\<lparr>blocks_map := [0]\<rparr>) 64
       = Some (0, demo_built_arena\<lparr>blocks_map := [0xFFFFFFFFFFFFFFFF]\<rparr>)"
proof -
  have 1: "mi_arenas demo_built_state ! 0 = Some demo_built_arena"
    by (simp add: demo_built_state_def)
  have 2: "block_count demo_built_arena = 32"
    by (simp add: demo_built_arena_def)
  have 3: "mi_arena_run demo_built_arena [Op_alloc 32, Op_free 0 64, Op_alloc 64]
       = [(0, 32), (0, 64)]"
    by (simp add: arena_alloc_one_field demo_built_arena_def try_claim_built
        unclaim_whole_field)
  have 4: "mi_arena_alloc demo_built_arena 32
       = Some (0, demo_built_arena\<lparr>blocks_map := [0xFFFFFFFFFFFFFFFF]\<rparr>)"
    by (simp add: arena_alloc_one_field demo_built_arena_def try_claim_built)
  have 5: "mi_arena_free demo_built_state_in_use 1073741824 2147483648 1
       = (Free_arena,
          demo_built_state\<lparr>mi_arenas :=
            Some (demo_built_arena\<lparr>blocks_map := [0]\<rparr>) # replicate 63 None\<rparr>)"
    by (simp add: mi_arena_free_def NULL_def MI_MEMID_OS_def memid_indices_1 MI_MAX_ARENAS_def
        demo_built_state_in_use_def demo_built_state_def demo_built_arena_def block_count_2GiB
        mi_bitmap_index_field_def MI_BITMAP_FIELD_BITS_def unclaim_whole_field Let_def)
  have 6: "mi_arena_alloc (demo_built_arena\<lparr>blocks_map := [0]\<rparr>) 64
       = Some (0, demo_built_arena\<lparr>blocks_map := [0xFFFFFFFFFFFFFFFF]\<rparr>)"
    by (simp add: arena_alloc_one_field demo_built_arena_def try_claim_built)
  from reserve_at_demo 1 2 3 4 5 6 show ?thesis
    by (intro conjI)
qed

section \<open>Properties of the interleaved reservation\<close>

lemma reserve_at_no_pages:
  "mi_reserve_huge_os_pages_at os st 0 nnode timeout_per = Inr (0, st)"
  by (simp add: mi_reserve_huge_os_pages_at_def)

lemma interleave_loop_done:
  "mi_reserve_interleave_loop os numa_count pages_per pages_mod timeout_per nnode 0 st = Inr (0, st)"
  by (subst mi_reserve_interleave_loop.simps) simp

lemma interleave_loop_is_plan:
  assumes "pages = sum_list (map (\<lambda>i. if i < pages_mod then pages_per + 1 else pages_per) [j ..< k])"
  shows "mi_reserve_interleave_loop os (int k) pages_per pages_mod timeout_per (int j) pages st =
     reserve_nodes_in_order os timeout_per
       (map (\<lambda>i. (if i < pages_mod then pages_per + 1 else pages_per, int i)) [j ..< k]) st"
  using assms
proof (induction "k - j" arbitrary: j pages st)
  case 0
  then have "[j ..< k] = []" by simp
  moreover have "\<not> int j < int k" using 0 by simp
  ultimately show ?case
    by (subst mi_reserve_interleave_loop.simps) simp
next
  case (Suc d)
  let ?share = "\<lambda>i. if i < pages_mod then pages_per + 1 else pages_per"
  let ?plan = "\<lambda>xs. map (\<lambda>i. (?share i, int i)) xs"
  from Suc.hyps(2) have jk: "j < k" by simp
  then have up: "[j ..< k] = j # [Suc j ..< k]" by (rule upt_conv_Cons)
  define rest where "rest = sum_list (map ?share [Suc j ..< k])"
  have pages: "pages = ?share j + rest"
    using Suc.prems by (simp add: up rest_def)
  have d: "d = k - Suc j" using Suc.hyps(2) by simp
  have IH: "mi_reserve_interleave_loop os (int k) pages_per pages_mod timeout_per (int (Suc j)) rest s =
     reserve_nodes_in_order os timeout_per (?plan [Suc j ..< k]) s" for s
    by (rule Suc.hyps(1) [OF d]) (simp add: rest_def)
  show ?case
  proof (cases "pages = 0")
    case True
    with pages have z: "?share j = 0" "rest = 0" by simp_all
    have "reserve_nodes_in_order os timeout_per (?plan [j ..< k]) st
        = reserve_nodes_in_order os timeout_per (?plan [Suc j ..< k]) st"
      unfolding up using z(1) by (simp add: reserve_at_no_pages)
    also have "\<dots> = mi_reserve_interleave_loop os (int k) pages_per pages_mod timeout_per
        (int (Suc j)) 0 st"
      using IH [of st] z(2) by simp
    also have "\<dots> = Inr (0, st)" by (rule interleave_loop_done)
    finally show ?thesis
      using True by (simp add: interleave_loop_done)
  next
    case False
    define sh where "sh = ?share j"
    have e1: "(if nat (int j) < pages_mod then pages_per + 1 else pages_per) = sh"
      by (simp add: sh_def)
    have step: "(if pages < sh then 0 else pages - sh) = rest"
      using pages by (simp add: sh_def)
    have nx: "int j + 1 = int (Suc j)" by simp
    have c: "int j < int k \<and> 0 < pages" using False jk by simp
    have "mi_reserve_interleave_loop os (int k) pages_per pages_mod timeout_per (int j) pages st =
        (case mi_reserve_huge_os_pages_at os st sh (int j) timeout_per of
           Inl t \<Rightarrow> Inl t
         | Inr (err, st') \<Rightarrow>
             if err \<noteq> 0 then Inr (err, st')
             else mi_reserve_interleave_loop os (int k) pages_per pages_mod timeout_per
                    (int (Suc j)) rest st')"
      by (subst mi_reserve_interleave_loop.simps) (simp only: c if_True Let_def e1 step nx simp_thms)
    also have "\<dots> =
        (case mi_reserve_huge_os_pages_at os st sh (int j) timeout_per of
           Inl t \<Rightarrow> Inl t
         | Inr (err, st') \<Rightarrow>
             if err \<noteq> 0 then Inr (err, st')
             else reserve_nodes_in_order os timeout_per (?plan [Suc j ..< k]) st')"
      by (simp only: IH)
    also have "\<dots> = reserve_nodes_in_order os timeout_per (?plan [j ..< k]) st"
      unfolding up sh_def by (simp only: list.map reserve_nodes_in_order.simps)
    finally show ?thesis .
  qed
qed

lemma share_sum:
  "sum_list (map (\<lambda>i. if i < m then a + 1 else a) [0 ..< k]) = k * a + min m k"
  by (induction k) auto

text \<open>
  C4. Interleaving fairness: for a page budget of at least 1 and \<open>k \<ge> 1\<close> NUMA nodes,
  \<^verbatim>\<open>mi_reserve_huge_os_pages_interleave\<close> is the run of \<^verbatim>\<open>mi_reserve_huge_os_pages_at\<close> over
  the nodes 0, 1, ... \<open>k - 1\<close> in this order, node \<open>i\<close> with one page more than the quotient
  when \<open>i\<close> is below the remainder and with the quotient otherwise, each with the timeout
  \<^verbatim>\<open>timeout_msecs / k + 50\<close> (in \<^verbatim>\<open>size_t\<close> arithmetic), stopped by the first answer other
  than 0, which is returned. The page counts of the \<open>k\<close> nodes add up to the budget. (A
  node whose count is 0 is not called by the loop; a call for 0 pages returns 0 and does
  nothing, so the run is the same.)
\<close>

theorem interleave_fairness:
  assumes "pages \<ge> 1" and "os_numa_node_count os = int k" and "k \<ge> 1"
  shows "mi_reserve_huge_os_pages_interleave os st pages timeout_msecs =
      reserve_nodes_in_order os ((timeout_msecs div k + 50) mod 2 ^ 64)
        (map (\<lambda>i. (interleave_share pages k i, int i)) [0 ..< k]) st
    \<and> sum_list (map (interleave_share pages k) [0 ..< k]) = pages"
proof -
  have share: "interleave_share pages k = (\<lambda>i. if i < pages mod k then pages div k + 1 else pages div k)"
    by (rule ext) (simp add: interleave_share_def)
  have "pages mod k < k" using assms(3) by simp
  then have m: "min (pages mod k) k = pages mod k" by simp
  have total: "sum_list (map (interleave_share pages k) [0 ..< k]) = pages"
    unfolding share share_sum m by simp
  have cnt: "(if os_numa_node_count os \<le> 0 then 1 else os_numa_node_count os) = int k"
    using assms(2,3) by simp
  have "mi_reserve_huge_os_pages_interleave os st pages timeout_msecs =
      mi_reserve_interleave_loop os (int k) (pages div k) (pages mod k)
        ((timeout_msecs div k + 50) mod 2 ^ 64) (int 0) pages st"
    using assms(1) unfolding mi_reserve_huge_os_pages_interleave_def cnt Let_def by simp
  also have "\<dots> = reserve_nodes_in_order os ((timeout_msecs div k + 50) mod 2 ^ 64)
        (map (\<lambda>i. (if i < pages mod k then pages div k + 1 else pages div k, int i)) [0 ..< k]) st"
    by (rule interleave_loop_is_plan) (simp only: total [unfolded share])
  finally show ?thesis
    using total by (simp only: share simp_thms)
qed

lemma upt_0_2: "[0 ..< 2] = [0, Suc 0]"
  by (simp add: numeral_2_eq_2)

theorem interleave_fairness_witness:
  "mi_reserve_huge_os_pages_interleave demo_os empty_state 5 1000 =
      reserve_nodes_in_order demo_os 550 [(3, 0), (2, 1)] empty_state"
proof -
  have k: "os_numa_node_count demo_os = int 2"
    by (simp add: demo_os_def)
  from interleave_fairness [of 5 demo_os 2 empty_state 1000, OF _ k]
  show ?thesis
    by (simp add: upt_0_2 interleave_share_def)
qed

section \<open>Properties of the arena selector\<close>

lemma arena_alloc_from_None:
  "mi_arena_alloc arena n = None \<Longrightarrow> mi_arena_alloc_from arena i n fl = Inr (NULL, arena, fl)"
  by (simp add: mi_arena_alloc_from_def)

lemma arena_scan_nothing:
  assumes "\<forall>j < MI_MAX_ARENAS. \<forall>a. arenas ! j = Some a \<longrightarrow> (large fl \<or> \<not> is_large a) \<longrightarrow>
             mi_arena_alloc a bcount = None"
  shows "mi_arena_scan numa_ok bcount i arenas fl = Inr (NULL, arenas, fl)"
  using assms
proof (induction numa_ok bcount i arenas fl rule: mi_arena_scan.induct)
  case (1 numa_ok bcount i arenas fl)
  show ?case
  proof (cases "i < MI_MAX_ARENAS")
    case False
    then show ?thesis by (subst mi_arena_scan.simps) simp
  next
    case True
    show ?thesis
    proof (cases "arenas ! i")
      case None
      with True show ?thesis by (subst mi_arena_scan.simps) simp
    next
      case (Some arena)
      show ?thesis
      proof (cases "numa_ok arena \<and> (large fl \<or> \<not> is_large arena)")
        case False
        have "mi_arena_scan numa_ok bcount i arenas fl
            = mi_arena_scan numa_ok bcount (i + 1) arenas fl"
          by (subst mi_arena_scan.simps) (simp only: True Some False if_True if_False option.case)
        also have "\<dots> = Inr (NULL, arenas, fl)"
          using True Some False "1.prems" by (intro "1.IH"(2)) simp_all
        finally show ?thesis .
      next
        case ok: True
        with "1.prems" True Some have "mi_arena_alloc arena bcount = None" by blast
        then have r: "mi_arena_alloc_from arena i bcount fl = Inr (NULL, arena, fl)"
          by (rule arena_alloc_from_None)
        have same: "arenas[i := Some arena] = arenas"
          using Some by (metis list_update_id)
        have "mi_arena_scan numa_ok bcount i arenas fl
            = mi_arena_scan numa_ok bcount (i + 1) arenas fl"
          by (subst mi_arena_scan.simps)
            (simp only: True Some ok if_True option.case sum.case Let_def r same fst_conv
               snd_conv simp_thms if_False)
        also have "\<dots> = Inr (NULL, arenas, fl)"
          using "1.IH"(1) [OF True Some ok r refl] "1.prems" by (simp add: same)
        finally show ?thesis .
      qed
    qed
  qed
qed

lemma os_fallback_result:
  "mi_arena_os_fallback os st sz alignment
       \<lparr>commit = commit0, large = l, is_zero = z, memid = m\<rparr> =
     (fst (os_alloc_aligned os (os_log st) sz alignment commit0
             (if l then option_large_os_pages os else l)),
      \<lparr>commit = commit0,
       large = snd (os_alloc_aligned os (os_log st) sz alignment commit0
                      (if l then option_large_os_pages os else l)),
       is_zero = True, memid = MI_MEMID_OS\<rparr>,
      st\<lparr>os_log := os_log st @
           [Ev_os_alloc_aligned sz alignment commit0
              (if l then option_large_os_pages os else l)]\<rparr>)"
  by (simp add: mi_arena_os_fallback_def Let_def log_event_def)

text \<open>
  C9. OS fallback: when the request is outside the eligibility window, or no registered
  arena that the request may use can claim the blocks, \<^verbatim>\<open>_mi_arena_alloc_aligned\<close> leaves
  the registry as it is and calls \<^verbatim>\<open>_mi_os_alloc_aligned\<close> with the size, the alignment,
  the caller's commit flag and, for \<^verbatim>\<open>*large\<close>, the value of the option for large OS pages
  when the caller asked for large pages (and false when not). The memory id it returns is
  \<^verbatim>\<open>MI_MEMID_OS\<close>, \<^verbatim>\<open>*is_zero\<close> is true, and pointer and \<^verbatim>\<open>*large\<close> are the answers of the OS.
\<close>

theorem arena_alloc_os_fallback:
  assumes "l = (case large0 of None \<Rightarrow> False | Some b \<Rightarrow> b)"
    and "\<not> (alignment \<le> MI_SEGMENT_ALIGN \<and> sz \<le> MI_ARENA_MAX_OBJ_SIZE
            \<and> sz \<ge> MI_ARENA_MIN_OBJ_SIZE)
         \<or> (\<forall>j < MI_MAX_ARENAS. \<forall>a. mi_arenas st ! j = Some a \<longrightarrow> (l \<or> \<not> is_large a) \<longrightarrow>
               mi_arena_alloc a (mi_block_count_of_size sz) = None)"
    and "l_os = (if l then option_large_os_pages os else l)"
  shows "mi_arena_alloc_aligned os st sz alignment commit0 large0 =
     Inr (fst (os_alloc_aligned os (os_log st) sz alignment commit0 l_os),
          \<lparr>commit = commit0,
           large = snd (os_alloc_aligned os (os_log st) sz alignment commit0 l_os),
           is_zero = True, memid = MI_MEMID_OS\<rparr>,
          st\<lparr>os_log := os_log st @ [Ev_os_alloc_aligned sz alignment commit0 l_os]\<rparr>)"
proof (cases "alignment \<le> MI_SEGMENT_ALIGN \<and> sz \<le> MI_ARENA_MAX_OBJ_SIZE
            \<and> sz \<ge> MI_ARENA_MIN_OBJ_SIZE")
  case False
  then show ?thesis
    unfolding mi_arena_alloc_aligned_def Let_def assms(1) [symmetric] assms(3)
    by (simp only: if_False os_fallback_result)
next
  case True
  let ?fl0 = "\<lparr>commit = commit0, large = l, is_zero = False, memid = MI_MEMID_OS\<rparr>"
  from True assms(2) have none: "\<forall>j < MI_MAX_ARENAS. \<forall>a. mi_arenas st ! j = Some a \<longrightarrow>
      (large ?fl0 \<or> \<not> is_large a) \<longrightarrow> mi_arena_alloc a (mi_block_count_of_size sz) = None"
    by simp
  have scan: "mi_arena_scan numa_ok (mi_block_count_of_size sz) 0 (mi_arenas st) ?fl0
      = Inr (NULL, mi_arenas st, ?fl0)" for numa_ok
    using none by (rule arena_scan_nothing)
  show ?thesis
    unfolding mi_arena_alloc_aligned_def Let_def assms(1) [symmetric] assms(3)
    by (simp only: True if_True scan sum.case fst_conv snd_conv simp_thms if_False
          os_fallback_result)
       simp
qed

theorem arena_alloc_os_fallback_witness:
  "mi_arena_alloc_aligned demo_os_no_large empty_state 33554432 4096 True (Some True) =
     Inr (8192, \<lparr>commit = True, large = False, is_zero = True, memid = MI_MEMID_OS\<rparr>,
          empty_state\<lparr>os_log := [Ev_os_alloc_aligned 33554432 4096 True False]\<rparr>)
   \<and> mi_arena_alloc_aligned demo_os_no_large demo_state 1000 4096 True (Some True) =
     Inr (8192, \<lparr>commit = True, large = False, is_zero = True, memid = MI_MEMID_OS\<rparr>,
          demo_state\<lparr>os_log := [Ev_os_alloc_aligned 1000 4096 True False]\<rparr>)"
proof -
  have a: "mi_arena_alloc_aligned demo_os_no_large empty_state 33554432 4096 True (Some True) =
     Inr (8192, \<lparr>commit = True, large = False, is_zero = True, memid = MI_MEMID_OS\<rparr>,
          empty_state\<lparr>os_log := [Ev_os_alloc_aligned 33554432 4096 True False]\<rparr>)"
    using arena_alloc_os_fallback [of True "Some True" 4096 33554432 empty_state
        False demo_os_no_large True]
    by (simp add: demo_os_no_large_def demo_os_def empty_state_def MI_MAX_ARENAS_def)
  have b: "mi_arena_alloc_aligned demo_os_no_large demo_state 1000 4096 True (Some True) =
     Inr (8192, \<lparr>commit = True, large = False, is_zero = True, memid = MI_MEMID_OS\<rparr>,
          demo_state\<lparr>os_log := [Ev_os_alloc_aligned 1000 4096 True False]\<rparr>)"
    using arena_alloc_os_fallback [of True "Some True" 4096 1000 demo_state
        False demo_os_no_large True]
    by (simp add: demo_os_no_large_def demo_os_def demo_state_def MI_ARENA_MIN_OBJ_SIZE_def
        MI_ARENA_BLOCK_SIZE_def MI_SEGMENT_ALIGN_def MI_SEGMENT_SIZE_def)
  from a b show ?thesis by (rule conjI)
qed

lemma free_field_try_claim:
  assumes "n \<le> 64" and "bitmap ! idx = 0"
  shows "mi_bitmap_try_claim_field bitmap idx n \<noteq> None"
proof -
  have "0 \<in> set [0 ..< 64 + 1 - n]" using assms(1) by simp
  moreover have "(bitmap ! idx) AND mi_bitmap_mask n 0 = 0" using assms(2) by simp
  ultimately have "List.find (\<lambda>bitidx. (bitmap ! idx) AND mi_bitmap_mask n bitidx = 0)
      [0 ..< 64 + 1 - n] \<noteq> None"
    unfolding find_None_iff by blast
  then show ?thesis
    by (auto simp add: mi_bitmap_try_claim_field_def MI_BITMAP_FIELD_BITS_def split: option.splits)
qed

lemma arena_alloc_free_field:
  assumes "idx < field_count a" and "blocks_map a ! idx = 0" and "n \<le> 64"
  shows "mi_arena_alloc a n \<noteq> None"
proof -
  let ?order = "mi_arena_scan_order (field_count a) (search_idx a)"
  have eq: "mi_arena_alloc a n = claim_first_in_order a n ?order"
    unfolding mi_arena_alloc_def alloc_loop_is_scan mi_arena_scan_order_def by simp
  have "idx \<in> set ?order" using assms(1) by (simp add: scan_order_set)
  moreover have "mi_bitmap_try_claim_field (blocks_map a) idx n \<noteq> None"
    using assms(3,2) by (rule free_field_try_claim)
  ultimately have "\<not> (\<forall>i \<in> set ?order. mi_bitmap_try_claim_field (blocks_map a) i n = None)"
    by (intro notI) (drule (1) bspec, simp)
  then show ?thesis
    unfolding eq claim_first_None .
qed

lemma eligible_block_count:
  assumes "sz \<le> MI_ARENA_MAX_OBJ_SIZE"
  shows "mi_block_count_of_size sz \<le> 64"
proof -
  have "sz \<le> 2147483648"
    using assms by (simp add: MI_ARENA_MAX_OBJ_SIZE_def MI_ARENA_BLOCK_SIZE_def
        MI_SEGMENT_ALIGN_def MI_SEGMENT_SIZE_def MI_BITMAP_FIELD_BITS_def)
  then have "sz + 33554432 - 1 < 2 ^ 64" by simp
  then have "(sz + 33554432 - 1) mod 2 ^ 64 = sz + 33554432 - 1" by simp
  then have "mi_block_count_of_size sz = (sz + 33554432 - 1) div 33554432"
    by (simp add: mi_block_count_of_size_def mi_divide_up_def MI_ARENA_BLOCK_SIZE_def
        MI_SEGMENT_ALIGN_def MI_SEGMENT_SIZE_def)
  with \<open>sz \<le> 2147483648\<close> show ?thesis by simp
qed

lemma memid_of_slot_0: "mi_memid_create 0 b \<noteq> MI_MEMID_OS"
proof
  assume "mi_memid_create 0 b = MI_MEMID_OS"
  then have "mi_memid_create 0 b AND 0xFF = 0" by (simp add: MI_MEMID_OS_def)
  then show False
    unfolding mi_memid_create_def memid_low_byte by simp
qed

lemma arena_alloc_field_of_position:
  assumes "mi_arena_alloc a n = Some (bi, a1)"
  shows "mi_bitmap_index_field bi < field_count a"
    and "blocks_dirty a1 = blocks_dirty a" and "start a1 = start a"
proof -
  from assms obtain idx where idx: "idx < field_count a"
    and tc: "mi_bitmap_try_claim_field (blocks_map a) idx n = Some (blocks_map a1, bi)"
    and a1: "a1 = a\<lparr>blocks_map := blocks_map a1, search_idx := idx\<rparr>"
    by (rule arena_alloc_Some_field)
  from tc obtain b where b: "bi = idx * 64 + b" "b + n \<le> 64" "n = 0 \<longrightarrow> b = 0"
    by (rule try_claim_field_Some)
  have "b < 64" using b(2,3) by (cases "n = 0") simp_all
  then have "bi div 64 = idx" using b(1) by simp
  with idx show "mi_bitmap_index_field bi < field_count a"
    by (simp add: mi_bitmap_index_field_def MI_BITMAP_FIELD_BITS_def)
  show "blocks_dirty a1 = blocks_dirty a" by (subst a1) simp
  show "start a1 = start a" by (subst a1) simp
qed

lemma arena_alloc_from_Some:
  assumes "mi_arena_alloc a n = Some (bi, a1)" and "start a \<noteq> NULL"
  shows "(\<exists>p a2 fl'. mi_arena_alloc_from a i n fl = Inr (p, a2, fl') \<and> p \<noteq> NULL
            \<and> memid fl' = mi_memid_create (of_nat i) (of_nat bi))
         \<or> (mi_arena_alloc_from a i n fl = Inl Access_outside_storage
            \<and> \<not> field_count a \<le> length (blocks_dirty a))"
proof (cases "mi_bitmap_index_field bi < length (blocks_dirty a1)")
  case True
  from assms(2) have s: "start a1 \<noteq> 0"
    by (simp add: arena_alloc_field_of_position(3) [OF assms(1)] NULL_def)
  have "\<exists>p a2 fl'. mi_arena_alloc_from a i n fl = Inr (p, a2, fl') \<and> p \<noteq> NULL
            \<and> memid fl' = mi_memid_create (of_nat i) (of_nat bi)"
    using True s
    by (simp add: mi_arena_alloc_from_def assms(1) Let_def NULL_def split: prod.splits)
  then show ?thesis by (rule disjI1)
next
  case False
  then have out: "mi_arena_alloc_from a i n fl = Inl Access_outside_storage"
    by (simp add: mi_arena_alloc_from_def assms(1))
  from False have "\<not> mi_bitmap_index_field bi < length (blocks_dirty a)"
    by (simp add: arena_alloc_field_of_position(2) [OF assms(1)])
  with arena_alloc_field_of_position(1) [OF assms(1)]
  have "\<not> field_count a \<le> length (blocks_dirty a)" by simp
  with out show ?thesis by simp
qed

lemma arena_scan_first_slot:
  assumes "arenas ! 0 = Some a" and "numa_ok a" and "large fl \<or> \<not> is_large a"
    and "mi_arena_alloc a n = Some (bi, a1)" and "start a \<noteq> NULL"
  shows "(\<exists>p arenas' fl'. mi_arena_scan numa_ok n 0 arenas fl = Inr (p, arenas', fl')
            \<and> p \<noteq> NULL \<and> memid fl' \<noteq> MI_MEMID_OS)
         \<or> (mi_arena_scan numa_ok n 0 arenas fl = Inl Access_outside_storage
            \<and> \<not> field_count a \<le> length (blocks_dirty a))"
proof -
  have c: "numa_ok a \<and> (large fl \<or> \<not> is_large a)" using assms(2,3) by simp
  have z: "(0::nat) < MI_MAX_ARENAS" by (simp add: MI_MAX_ARENAS_def)
  have eq: "mi_arena_scan numa_ok n 0 arenas fl =
      (case mi_arena_alloc_from a 0 n fl of
         Inl t \<Rightarrow> Inl t
       | Inr r \<Rightarrow>
           (let arenas' = arenas[0 := Some (fst (snd r))]
            in if fst r \<noteq> NULL then Inr (fst r, arenas', snd (snd r))
               else mi_arena_scan numa_ok n (0 + 1) arenas' (snd (snd r))))"
    by (subst mi_arena_scan.simps) (simp only: z if_True assms(1) option.case c simp_thms)
  from arena_alloc_from_Some [OF assms(4,5), of 0 fl] show ?thesis
  proof
    assume "\<exists>p a2 fl'. mi_arena_alloc_from a 0 n fl = Inr (p, a2, fl') \<and> p \<noteq> NULL
            \<and> memid fl' = mi_memid_create (of_nat 0) (of_nat bi)"
    then obtain p a2 fl' where r: "mi_arena_alloc_from a 0 n fl = Inr (p, a2, fl')"
      and p: "p \<noteq> NULL" and m: "memid fl' = mi_memid_create (of_nat 0) (of_nat bi)"
      by blast
    have "mi_arena_scan numa_ok n 0 arenas fl = Inr (p, arenas[0 := Some a2], fl')"
      unfolding eq r using p by (simp add: Let_def)
    moreover have "memid fl' \<noteq> MI_MEMID_OS"
      using m memid_of_slot_0 [of "of_nat bi"] by simp
    ultimately show ?thesis using p by blast
  next
    assume "mi_arena_alloc_from a 0 n fl = Inl Access_outside_storage
            \<and> \<not> field_count a \<le> length (blocks_dirty a)"
    then show ?thesis unfolding eq by simp
  qed
qed

text \<open>
  C5. Eligibility boundary: take a registry whose first arena the request may use (its
  NUMA node is the caller's or none, large pages are allowed for the request) and which
  has a whole field free, so that it can serve every request of the arena path. Then
  \<^verbatim>\<open>_mi_arena_alloc_aligned\<close> answers arena memory (a memory id other than \<^verbatim>\<open>MI_MEMID_OS\<close>,
  no call of the OS) exactly when the alignment is at most \<^verbatim>\<open>MI_SEGMENT_ALIGN\<close> and the size
  is between \<^verbatim>\<open>MI_ARENA_MIN_OBJ_SIZE\<close> and \<^verbatim>\<open>MI_ARENA_MAX_OBJ_SIZE\<close>, both included;
  otherwise it goes to the OS. The one other end of the call is on the arena path as well:
  inside the window, when the dirty bitmap of that arena does not lie in the storage of
  its descriptor, the claim of the dirty bits writes outside the storage. The minimum is
  half a block and the maximum is the bits of a field times the block size.
\<close>

theorem arena_alloc_eligibility:
  assumes "mi_arenas st ! 0 = Some a"
    and "numa_node a < 0 \<or> numa_node a = os_numa_node os"
    and "(case large0 of None \<Rightarrow> False | Some b \<Rightarrow> b) \<or> \<not> is_large a"
    and "start a \<noteq> NULL"
    and "idx < field_count a" and "blocks_map a ! idx = 0"
  shows "(case mi_arena_alloc_aligned os st sz alignment commit0 large0 of
            Inl t \<Rightarrow>
              t = Access_outside_storage
              \<and> (alignment \<le> MI_SEGMENT_ALIGN \<and> MI_ARENA_MIN_OBJ_SIZE \<le> sz
                    \<and> sz \<le> MI_ARENA_MAX_OBJ_SIZE)
              \<and> \<not> field_count a \<le> length (blocks_dirty a)
          | Inr (p, fl, st') \<Rightarrow>
              (memid fl \<noteq> MI_MEMID_OS
                \<longleftrightarrow> alignment \<le> MI_SEGMENT_ALIGN \<and> MI_ARENA_MIN_OBJ_SIZE \<le> sz
                      \<and> sz \<le> MI_ARENA_MAX_OBJ_SIZE)
              \<and> (os_log st' = os_log st
                \<longleftrightarrow> alignment \<le> MI_SEGMENT_ALIGN \<and> MI_ARENA_MIN_OBJ_SIZE \<le> sz
                      \<and> sz \<le> MI_ARENA_MAX_OBJ_SIZE))
    \<and> 2 * MI_ARENA_MIN_OBJ_SIZE = MI_ARENA_BLOCK_SIZE
    \<and> MI_ARENA_MAX_OBJ_SIZE = MI_BITMAP_FIELD_BITS * MI_ARENA_BLOCK_SIZE"
proof -
  let ?l = "case large0 of None \<Rightarrow> False | Some b \<Rightarrow> b"
  let ?fl0 = "\<lparr>commit = commit0, large = ?l, is_zero = False, memid = MI_MEMID_OS\<rparr>"
  let ?R = "mi_arena_alloc_aligned os st sz alignment commit0 large0"
  let ?E = "alignment \<le> MI_SEGMENT_ALIGN \<and> sz \<le> MI_ARENA_MAX_OBJ_SIZE
              \<and> sz \<ge> MI_ARENA_MIN_OBJ_SIZE"
  let ?W = "alignment \<le> MI_SEGMENT_ALIGN \<and> MI_ARENA_MIN_OBJ_SIZE \<le> sz
              \<and> sz \<le> MI_ARENA_MAX_OBJ_SIZE"
  have cst: "2 * MI_ARENA_MIN_OBJ_SIZE = MI_ARENA_BLOCK_SIZE"
    "MI_ARENA_MAX_OBJ_SIZE = MI_BITMAP_FIELD_BITS * MI_ARENA_BLOCK_SIZE"
    by (simp_all add: MI_ARENA_MIN_OBJ_SIZE_def MI_ARENA_MAX_OBJ_SIZE_def MI_ARENA_BLOCK_SIZE_def
        MI_SEGMENT_ALIGN_def MI_SEGMENT_SIZE_def)
  have EW: "?E \<longleftrightarrow> ?W" by blast
  have main: "(case ?R of
            Inl t \<Rightarrow> t = Access_outside_storage \<and> ?W
              \<and> \<not> field_count a \<le> length (blocks_dirty a)
          | Inr (p, fl, st') \<Rightarrow>
              (memid fl \<noteq> MI_MEMID_OS \<longleftrightarrow> ?W) \<and> (os_log st' = os_log st \<longleftrightarrow> ?W))"
  proof (cases ?E)
    case False
    have "?R = Inr (mi_arena_os_fallback os st sz alignment ?fl0)"
      unfolding mi_arena_alloc_aligned_def Let_def by (simp only: False if_False)
    then show ?thesis
      using False by (auto simp add: os_fallback_result)
  next
    case True
    then have W: ?W by blast
    from True have "mi_block_count_of_size sz \<le> 64"
      by (intro eligible_block_count) simp
    with assms(5,6) have "mi_arena_alloc a (mi_block_count_of_size sz) \<noteq> None"
      by (rule arena_alloc_free_field)
    then obtain bi a1 where al: "mi_arena_alloc a (mi_block_count_of_size sz) = Some (bi, a1)"
      by (cases "mi_arena_alloc a (mi_block_count_of_size sz)") auto
    let ?r1 = "mi_arena_scan (\<lambda>a. numa_node a < 0 \<or> numa_node a = os_numa_node os)
        (mi_block_count_of_size sz) 0 (mi_arenas st) ?fl0"
    have lg: "large ?fl0 \<or> \<not> is_large a" using assms(3) by simp
    have R: "?R = (case ?r1 of
                 Inl t \<Rightarrow> Inl t
               | Inr r1 \<Rightarrow>
                   if fst r1 \<noteq> NULL
                   then Inr (fst r1, snd (snd r1), st\<lparr>mi_arenas := fst (snd r1)\<rparr>)
                   else
                     (case mi_arena_scan (\<lambda>a. numa_node a \<ge> 0 \<and> numa_node a \<noteq> os_numa_node os)
                             (mi_block_count_of_size sz) 0 (fst (snd r1)) (snd (snd r1)) of
                        Inl t \<Rightarrow> Inl t
                      | Inr r2 \<Rightarrow>
                          if fst r2 \<noteq> NULL
                          then Inr (fst r2, snd (snd r2), st\<lparr>mi_arenas := fst (snd r2)\<rparr>)
                          else Inr (mi_arena_os_fallback os (st\<lparr>mi_arenas := fst (snd r2)\<rparr>)
                                      sz alignment (snd (snd r2)))))"
      unfolding mi_arena_alloc_aligned_def Let_def by (simp only: True if_True simp_thms)
    from arena_scan_first_slot [where numa_ok = "\<lambda>a. numa_node a < 0 \<or> numa_node a = os_numa_node os",
        OF assms(1) assms(2) lg al assms(4)]
    show ?thesis
    proof
      assume "\<exists>p arenas' fl'. ?r1 = Inr (p, arenas', fl') \<and> p \<noteq> NULL \<and> memid fl' \<noteq> MI_MEMID_OS"
      then obtain p arenas' fl' where r1: "?r1 = Inr (p, arenas', fl')"
        and p: "p \<noteq> NULL" and m: "memid fl' \<noteq> MI_MEMID_OS"
        by blast
      have "?R = Inr (p, fl', st\<lparr>mi_arenas := arenas'\<rparr>)"
        unfolding R r1 using p by simp
      then show ?thesis using W m by simp
    next
      assume out: "?r1 = Inl Access_outside_storage
          \<and> \<not> field_count a \<le> length (blocks_dirty a)"
      then have "?R = Inl Access_outside_storage"
        unfolding R by simp
      then show ?thesis using W out by simp
    qed
  qed
  from main cst show ?thesis
    by (intro conjI)
qed

theorem arena_alloc_eligibility_witness:
  "(\<exists>p fl st'. mi_arena_alloc_aligned demo_os demo_free_state 16777216 4096 True (Some True)
        = Inr (p, fl, st') \<and> memid fl \<noteq> MI_MEMID_OS)
   \<and> (\<exists>p fl st'. mi_arena_alloc_aligned demo_os demo_free_state 16777215 4096 True (Some True)
        = Inr (p, fl, st') \<and> memid fl = MI_MEMID_OS)
   \<and> (\<exists>p fl st'. mi_arena_alloc_aligned demo_os demo_free_state 2147483648 4096 True (Some True)
        = Inr (p, fl, st') \<and> memid fl \<noteq> MI_MEMID_OS)
   \<and> (\<exists>p fl st'. mi_arena_alloc_aligned demo_os demo_free_state 2147483649 4096 True (Some True)
        = Inr (p, fl, st') \<and> memid fl = MI_MEMID_OS)"
proof -
  have h: "mi_arenas demo_free_state ! 0 = Some demo_free_arena"
    "numa_node demo_free_arena < 0 \<or> numa_node demo_free_arena = os_numa_node demo_os"
    "(case Some True of None \<Rightarrow> False | Some b \<Rightarrow> b) \<or> \<not> is_large demo_free_arena"
    "start demo_free_arena \<noteq> NULL"
    "0 < field_count demo_free_arena" "blocks_map demo_free_arena ! 0 = 0"
    by (simp_all add: demo_free_state_def demo_free_arena_def NULL_def)
  note T = arena_alloc_eligibility [OF h, where alignment = 4096 and ?commit0.0 = True]
  have c: "MI_SEGMENT_ALIGN = 4194304" "MI_ARENA_MIN_OBJ_SIZE = 16777216"
    "MI_ARENA_MAX_OBJ_SIZE = 2147483648"
    by (simp_all add: MI_ARENA_MIN_OBJ_SIZE_def MI_ARENA_MAX_OBJ_SIZE_def MI_ARENA_BLOCK_SIZE_def
        MI_SEGMENT_ALIGN_def MI_SEGMENT_SIZE_def MI_BITMAP_FIELD_BITS_def)
  have d: "field_count demo_free_arena \<le> length (blocks_dirty demo_free_arena)"
    by (simp add: demo_free_arena_def)
  have 1: "\<exists>p fl st'. mi_arena_alloc_aligned demo_os demo_free_state 16777216 4096 True (Some True)
        = Inr (p, fl, st') \<and> memid fl \<noteq> MI_MEMID_OS"
    using T [where sz = 16777216] d
    by (cases "mi_arena_alloc_aligned demo_os demo_free_state 16777216 4096 True (Some True)")
       (auto simp add: c)
  have 2: "\<exists>p fl st'. mi_arena_alloc_aligned demo_os demo_free_state 16777215 4096 True (Some True)
        = Inr (p, fl, st') \<and> memid fl = MI_MEMID_OS"
    using T [where sz = 16777215] d
    by (cases "mi_arena_alloc_aligned demo_os demo_free_state 16777215 4096 True (Some True)")
       (auto simp add: c)
  have 3: "\<exists>p fl st'. mi_arena_alloc_aligned demo_os demo_free_state 2147483648 4096 True (Some True)
        = Inr (p, fl, st') \<and> memid fl \<noteq> MI_MEMID_OS"
    using T [where sz = 2147483648] d
    by (cases "mi_arena_alloc_aligned demo_os demo_free_state 2147483648 4096 True (Some True)")
       (auto simp add: c)
  have 4: "\<exists>p fl st'. mi_arena_alloc_aligned demo_os demo_free_state 2147483649 4096 True (Some True)
        = Inr (p, fl, st') \<and> memid fl = MI_MEMID_OS"
    using T [where sz = 2147483649] d
    by (cases "mi_arena_alloc_aligned demo_os demo_free_state 2147483649 4096 True (Some True)")
       (auto simp add: c)
  from 1 2 3 4 show ?thesis by (intro conjI)
qed

text \<open>
  The arena that a reservation of one huge page builds has no field of its storage
  behind \<^verbatim>\<open>blocks_dirty\<close>: the allocation of its 32 blocks claims them in the in-use bitmap
  and then writes the dirty bits outside the storage of the descriptor.
\<close>

lemma arena_alloc_from_built_arena:
  "mi_arena_alloc_from demo_built_arena 0 32 fl = Inl Access_outside_storage"
  by (simp add: mi_arena_alloc_from_def arena_alloc_one_field demo_built_arena_def
      try_claim_built)

lemma arena_scan_built_arena:
  assumes "numa_ok demo_built_arena" and "large fl"
  shows "mi_arena_scan numa_ok 32 0 (Some demo_built_arena # replicate 63 None) fl
     = Inl Access_outside_storage"
  using assms
  by (subst mi_arena_scan.simps) (simp add: MI_MAX_ARENAS_def arena_alloc_from_built_arena)

lemma arena_alloc_aligned_built_arena:
  "mi_arena_alloc_aligned demo_os demo_built_state 1073741824 4096 True (Some True)
     = Inl Access_outside_storage"
proof -
  have "mi_arena_scan (\<lambda>a. numa_node a < 0 \<or> numa_node a = os_numa_node demo_os) 32 0
      (Some demo_built_arena # replicate 63 None)
      \<lparr>commit = True, large = True, is_zero = False, memid = MI_MEMID_OS\<rparr>
    = Inl Access_outside_storage"
    by (rule arena_scan_built_arena) (simp_all add: demo_built_arena_def demo_os_def)
  then show ?thesis
    by (simp add: mi_arena_alloc_aligned_def Let_def MI_SEGMENT_ALIGN_def MI_SEGMENT_SIZE_def
        MI_ARENA_MAX_OBJ_SIZE_def MI_ARENA_MIN_OBJ_SIZE_def MI_ARENA_BLOCK_SIZE_def
        MI_BITMAP_FIELD_BITS_def block_count_1GiB demo_built_state_def)
qed

end
